theory Spec2Isabelle
  imports Main "HOL-Library.Sublist" "HOL-Library.Multiset" "HOL-Library.Option_ord"
begin

section \<open>Python strings\<close>

text \<open>
  The program of \<^verbatim>\<open>check_first_posts_for_changes/main.py\<close> works on Python
  \<^verbatim>\<open>str\<close> values: sequences of Unicode code points. A string is modelled as the
  list of its code points, so that \<^verbatim>\<open>len\<close>, slicing and the regular expression
  counters \<^verbatim>\<open>.{1,500}\<close> count what Python counts. ASCII literals are written
  with \<open>u\<close>; Cyrillic literals are written as their code points, with a transliteration
  beside them.
\<close>

type_synonym ustr = "int list"

definition u :: "string \<Rightarrow> ustr" where
  "u s = map of_char s"

text \<open>
  \<^verbatim>\<open>s.find(sub)\<close>: the lowest index where \<open>sub\<close> starts, or \<open>-1\<close>.
  The empty string is found at index 0.
\<close>

fun find_index_of :: "ustr \<Rightarrow> ustr \<Rightarrow> nat option" where
  "find_index_of sub [] = (if sub = [] then Some 0 else None)"
| "find_index_of sub (c # cs) =
     (if prefix sub (c # cs) then Some 0 else map_option Suc (find_index_of sub cs))"

definition py_find :: "ustr \<Rightarrow> ustr \<Rightarrow> int" where
  "py_find s sub = (case find_index_of sub s of None \<Rightarrow> -1 | Some i \<Rightarrow> int i)"

text \<open>\<^verbatim>\<open>s.rfind(sub)\<close>: the highest index where \<open>sub\<close> starts, or \<open>-1\<close>.\<close>

fun rfind_index_of :: "ustr \<Rightarrow> ustr \<Rightarrow> nat option" where
  "rfind_index_of sub [] = (if sub = [] then Some 0 else None)"
| "rfind_index_of sub (c # cs) =
     (case rfind_index_of sub cs of
        Some i \<Rightarrow> Some (Suc i)
      | None \<Rightarrow> if prefix sub (c # cs) then Some 0 else None)"

definition py_rfind :: "ustr \<Rightarrow> ustr \<Rightarrow> int" where
  "py_rfind s sub = (case rfind_index_of sub s of None \<Rightarrow> -1 | Some i \<Rightarrow> int i)"

text \<open>
  Slices \<^verbatim>\<open>s[i:]\<close> and \<^verbatim>\<open>s[:j]\<close>. A negative bound counts from the end of
  the string and is clipped at 0, as Python does; this is what happens after a
  \<^verbatim>\<open>find\<close> that returned \<open>-1\<close>.
\<close>

definition slice_from :: "ustr \<Rightarrow> int \<Rightarrow> ustr" where
  "slice_from s i = (if i < 0 then drop (nat (int (length s) + i)) s else drop (nat i) s)"

definition slice_to :: "ustr \<Rightarrow> int \<Rightarrow> ustr" where
  "slice_to s j = (if j < 0 then take (nat (int (length s) + j)) s else take (nat j) s)"

text \<open>
  \<^verbatim>\<open>s.replace(old, new)\<close>: every occurrence of \<open>old\<close>, found from left to right
  without overlap, is replaced. The counter of \<open>replace_skip\<close> is the number of characters
  of the occurrence just replaced that are still to be stepped over. (For an empty
  \<open>old\<close> Python inserts \<open>new\<close> around every character; the program never
  replaces an empty word, since no pattern of it matches the empty string.)
\<close>

fun replace_skip :: "ustr \<Rightarrow> ustr \<Rightarrow> nat \<Rightarrow> ustr \<Rightarrow> ustr" where
  "replace_skip old new k [] = []"
| "replace_skip old new (Suc k) (c # cs) = replace_skip old new k cs"
| "replace_skip old new 0 (c # cs) =
     (if prefix old (c # cs) then new @ replace_skip old new (length old - 1) cs
      else c # replace_skip old new 0 cs)"

definition py_replace :: "ustr \<Rightarrow> ustr \<Rightarrow> ustr \<Rightarrow> ustr" where
  "py_replace s old new =
     (if old = [] then new @ concat (map (\<lambda>c. c # new) s) else replace_skip old new 0 s)"

text \<open>Exceptions of the program, as values. All are subclasses of \<^verbatim>\<open>Exception\<close>.\<close>

datatype exn =
    ReadTimeout                \<comment> \<open>\<^verbatim>\<open>requests.exceptions.ReadTimeout\<close>\<close>
  | Timeout                    \<comment> \<open>any other \<^verbatim>\<open>requests.exceptions.Timeout\<close>\<close>
  | BuiltinConnectionError     \<comment> \<open>Python's built-in \<^verbatim>\<open>ConnectionError\<close>\<close>
  | RequestsConnectionError    \<comment> \<open>\<^verbatim>\<open>requests.exceptions.ConnectionError\<close>, not a
                                   subclass of the built-in one\<close>
  | OtherException             \<comment> \<open>any other exception of the request or of the decoding\<close>
  | IndexError
  | TypeError
  | KeyError

text \<open>\<^verbatim>\<open>s[i]\<close> for \<open>i \<ge> 0\<close>: out of range raises \<^verbatim>\<open>IndexError\<close>.\<close>

definition py_index :: "ustr \<Rightarrow> nat \<Rightarrow> exn + int" where
  "py_index s i = (if i < length s then Inr (s ! i) else Inl IndexError)"

section \<open>Regular expressions\<close>

text \<open>
  The patterns of the program are built from literals, character classes with a greedy
  repetition, alternatives and an empty alternative. \<open>rx_ends r s\<close> lists what is left
  of \<open>s\<close> after each way \<open>r\<close> can match at the start of \<open>s\<close>, in the order in which
  Python's backtracking matcher tries them (a greedy repetition tries the longest run
  first, an alternation its left branch first). The head of the list is the match that
  \<^verbatim>\<open>re\<close> reports.

  Character classes: \<open>Dot\<close> is \<^verbatim>\<open>.\<close> (anything but a newline);
  \<open>NonSpace\<close> is \<^verbatim>\<open>\S\<close>, the complement of the characters for which
  \<^verbatim>\<open>str.isspace\<close> holds; \<open>Digit\<close> is \<^verbatim>\<open>\d\<close>, modelled for the
  ASCII digits. \<open>LitI\<close> is a literal under the flag \<^verbatim>\<open>(?i)\<close>: two characters
  agree when their lower-case forms agree, and \<open>lower\<close> is modelled for the Latin and the
  Cyrillic capital letters.
\<close>

datatype cclass = Dot | Digit | NonSpace

definition is_space :: "int \<Rightarrow> bool" where
  "is_space c \<longleftrightarrow>
     (9 \<le> c \<and> c \<le> 13) \<or> (28 \<le> c \<and> c \<le> 32) \<or> c = 133 \<or> c = 160 \<or> c = 5760
     \<or> (8192 \<le> c \<and> c \<le> 8202) \<or> c = 8232 \<or> c = 8233 \<or> c = 8239 \<or> c = 8287
     \<or> c = 12288"

fun in_class :: "cclass \<Rightarrow> int \<Rightarrow> bool" where
  "in_class Dot c = (c \<noteq> 10)"
| "in_class Digit c = (48 \<le> c \<and> c \<le> 57)"
| "in_class NonSpace c = (\<not> is_space c)"

definition lower :: "int \<Rightarrow> int" where
  "lower c =
     (if 65 \<le> c \<and> c \<le> 90 then c + 32
      else if 1040 \<le> c \<and> c \<le> 1071 then c + 32
      else if 1024 \<le> c \<and> c \<le> 1039 then c + 80
      else c)"

datatype rx =
    Eps
  | Lit ustr
  | LitI ustr
  | Rep cclass nat "nat option"   \<comment> \<open>greedy \<^verbatim>\<open>{lo,hi}\<close>; no upper bound for \<^verbatim>\<open>+\<close> and \<^verbatim>\<open>*\<close>\<close>
  | Cat rx rx
  | Alt rx rx

fun rx_ends :: "rx \<Rightarrow> ustr \<Rightarrow> ustr list" where
  "rx_ends Eps s = [s]"
| "rx_ends (Lit w) s = (if prefix w s then [drop (length w) s] else [])"
| "rx_ends (LitI w) s =
     (if length w \<le> length s \<and> map lower (take (length w) s) = map lower w
      then [drop (length w) s] else [])"
| "rx_ends (Rep c lo hi) s =
     (let n = length (takeWhile (in_class c) s);
          m = (case hi of None \<Rightarrow> n | Some h \<Rightarrow> min h n)
      in map (\<lambda>k. drop k s) (rev [lo ..< Suc m]))"
| "rx_ends (Cat a b) s = concat (map (rx_ends b) (rx_ends a s))"
| "rx_ends (Alt a b) s = rx_ends a s @ rx_ends b s"

text \<open>
  \<^verbatim>\<open>re.search(r, s)\<close>: the match at the leftmost position that has one;
  the result is the matched text, \<^verbatim>\<open>m.group()\<close>.
\<close>

fun rx_search :: "rx \<Rightarrow> ustr \<Rightarrow> ustr option" where
  "rx_search r [] = (case rx_ends r [] of [] \<Rightarrow> None | e # _ \<Rightarrow> Some [])"
| "rx_search r (c # cs) =
     (case rx_ends r (c # cs) of
        [] \<Rightarrow> rx_search r cs
      | e # _ \<Rightarrow> Some (take (length (c # cs) - length e) (c # cs)))"

text \<open>
  \<^verbatim>\<open>re.findall(r, s)\<close> for a pattern without groups: the matched texts, from left
  to right, each search resuming where the last match ended. The counter is the number
  of characters of the last match still to be stepped over.
\<close>

fun rx_findall_skip :: "rx \<Rightarrow> nat \<Rightarrow> ustr \<Rightarrow> ustr list" where
  "rx_findall_skip r k [] = (if k = 0 \<and> rx_ends r [] \<noteq> [] then [[]] else [])"
| "rx_findall_skip r (Suc k) (c # cs) = rx_findall_skip r k cs"
| "rx_findall_skip r 0 (c # cs) =
     (case rx_ends r (c # cs) of
        [] \<Rightarrow> rx_findall_skip r 0 cs
      | e # _ \<Rightarrow>
          (let w = take (length (c # cs) - length e) (c # cs)
           in w # rx_findall_skip r (length w - 1) cs))"

definition rx_findall :: "rx \<Rightarrow> ustr \<Rightarrow> ustr list" where
  "rx_findall r s = rx_findall_skip r 0 s"

section \<open>The state of one invocation and its environment\<close>

text \<open>
  What the program publishes: admin notifications (the texts it formats), status
  events for topic management, and the list of topics whose first post changed.
  \<^verbatim>\<open>publish_to_pubsub\<close> catches and logs a failure of the publisher, so the model
  records the message handed to it.
\<close>

datatype status =
    Ishchem      \<comment> \<open>code points 1048 1097 1077 1084, "searching"\<close>
  | NZh          \<comment> \<open>code points 1053 1046, "found alive"\<close>
  | NP           \<comment> \<open>code points 1053 1055, "found deceased"\<close>
  | Zavershen    \<comment> \<open>code points 1047 1072 1074 1077 1088 1096 1077 1085, "completed"\<close>

datatype admin_text =
    AdminFindTrue int bool        \<comment> \<open>\<^verbatim>\<open>content.find() > 0 is True for {search_num}. BadGateway = {bad_gateway}\<close>\<close>
  | AdminBadGateway int int       \<comment> \<open>\<^verbatim>\<open>BadGateway for {search_num}, content[3000]:{content[3000]}\<close>\<close>
  | AdminReadTimeout              \<comment> \<open>\<^verbatim>\<open>[che_posts]: requests.exceptions.ReadTimeout\<close>\<close>
  | AdminTimeout                  \<comment> \<open>\<^verbatim>\<open>[che_posts]: requests.exceptions.Timeout\<close>\<close>
  | AdminConnectionError          \<comment> \<open>\<^verbatim>\<open>[che_posts]: CONNECTION ERROR OR TIMEOUT\<close>\<close>

datatype message =
    NotifyAdmin admin_text             \<comment> \<open>topic \<^verbatim>\<open>topic_notify_admin\<close>\<close>
  | TopicManagement int status         \<comment> \<open>topic \<^verbatim>\<open>topic_for_topic_management\<close>\<close>
  | FirstPostProcessing "int list"     \<comment> \<open>topic \<^verbatim>\<open>topic_for_first_post_processing\<close>\<close>

datatype visibility = Regular | Deleted | Hidden

text \<open>A row of table \<^verbatim>\<open>search_health_check\<close>.\<close>

record health_row =
  hc_search_forum_num :: int
  hc_timestamp :: nat
  hc_status :: visibility

text \<open>
  A row of table \<^verbatim>\<open>search_first_posts\<close>: one snapshot of a topic's first post.
  Column \<^verbatim>\<open>actual\<close> is the is-current flag.
\<close>

record snapshot =
  fp_search_id :: int
  fp_timestamp :: nat
  fp_actual :: bool
  fp_content_hash :: "ustr option"
  fp_content :: "ustr option"
  fp_num_of_checks :: "int option"

text \<open>
  The state the program reads and writes: the global \<^verbatim>\<open>bad_gateway_counter\<close>,
  the messages published so far, the two tables it writes, and how many HTTP requests
  and clock readings it has made (the environment answers the n-th of each).
  Logging is not modelled. The statements sent to the database are modelled as total:
  a failing connection is outside the model.
\<close>

record state =
  bad_gateway_counter :: int
  published :: "message list"
  search_health_check :: "health_row list"
  search_first_posts :: "snapshot list"
  requests_made :: nat
  clock_reads :: nat

text \<open>
  The environment: \<open>http env n t\<close> is the outcome of the n-th request, made for topic
  \<open>t\<close> (the decoded body, or the exception that \<^verbatim>\<open>requests_session.get\<close> or the
  decoding raised); \<open>now env n\<close> is the n-th reading of \<^verbatim>\<open>datetime.datetime.now()\<close>,
  counted from \<^verbatim>\<open>datetime.datetime(1, 1, 1, 0, 0)\<close>, the least value of the type.

  Library functions that are not modelled are fields of the environment too, so every
  theorem holds whatever they compute: \<open>md5 env s\<close> is
  \<^verbatim>\<open>hashlib.md5(s.encode()).hexdigest()\<close>; \<open>round_fraction env x\<close> is the value of
  \<^verbatim>\<open>round(x / 100)\<close> and \<open>round_quota env w n\<close> the value of
  \<^verbatim>\<open>round(w / 100 * n)\<close>, both computed by Python on floating-point numbers;
  \<open>randbelow env k n\<close> is the k-th random number drawn by \<^verbatim>\<open>random.shuffle\<close>,
  asked to be below \<open>n\<close>.
\<close>

record env =
  http :: "nat \<Rightarrow> int \<Rightarrow> exn + ustr"
  now :: "nat \<Rightarrow> nat"
  md5 :: "ustr \<Rightarrow> ustr"
  round_fraction :: "int \<Rightarrow> int"
  round_quota :: "int \<Rightarrow> int \<Rightarrow> int"
  randbelow :: "nat \<Rightarrow> nat \<Rightarrow> nat"

definition publish_to_pubsub :: "message \<Rightarrow> state \<Rightarrow> state" where
  "publish_to_pubsub m st = st\<lparr>published := published st @ [m]\<rparr>"

definition notify_admin :: "admin_text \<Rightarrow> state \<Rightarrow> state" where
  "notify_admin t st = publish_to_pubsub (NotifyAdmin t) st"

definition count_bad_gateway :: "state \<Rightarrow> state" where
  \<comment> \<open>\<^verbatim>\<open>bad_gateway_counter += 1\<close>\<close>
  "count_bad_gateway st = st\<lparr>bad_gateway_counter := bad_gateway_counter st + 1\<rparr>"

section \<open>Fetching a topic page\<close>

text \<open>
  \<^verbatim>\<open>parse_search\<close>: the request and the decoding run inside \<^verbatim>\<open>try\<close>; the
  handlers are tried in the order of the source. The third handler names Python's
  built-in \<^verbatim>\<open>ConnectionError\<close>; the last one, \<^verbatim>\<open>except Exception\<close>, only logs.
  The result is \<open>Inl\<close> for an exception that leaves the function.
\<close>

definition parse_search :: "env \<Rightarrow> int \<Rightarrow> state \<Rightarrow> (exn + ustr option) \<times> state" where
  "parse_search env search_num st =
     (let st1 = st\<lparr>requests_made := Suc (requests_made st)\<rparr> in
      case http env (requests_made st) search_num of
        Inr content \<Rightarrow> (Inr (Some content), st1)
      | Inl e \<Rightarrow>
          if e = ReadTimeout then (Inr None, count_bad_gateway (notify_admin AdminReadTimeout st1))
          else if e = Timeout then (Inr None, count_bad_gateway (notify_admin AdminTimeout st1))
          else if e = BuiltinConnectionError
            then (Inr None, count_bad_gateway (notify_admin AdminConnectionError st1))
          else (Inr None, st1))"

section \<open>Visibility of a topic\<close>

definition deleted_marker_dot :: ustr where
  \<comment> \<open>"Zaproshennoi temy ne sushchestvuet." (the requested topic does not exist), with
      the full stop\<close>
  "deleted_marker_dot =
     [1047, 1072, 1087, 1088, 1086, 1096, 1077, 1085, 1085, 1086, 1081, 32, 1090, 1077, 1084,
      1099, 32, 1085, 1077, 32, 1089, 1091, 1097, 1077, 1089, 1090, 1074, 1091, 1077, 1090, 46]"

definition hidden_marker :: ustr where
  \<comment> \<open>"Dlya prosmotra etogo foruma vy dolzhny byt' avtorizovany" (you must be logged in
      to view this forum)\<close>
  "hidden_marker =
     [1044, 1083, 1103, 32, 1087, 1088, 1086, 1089, 1084, 1086, 1090, 1088, 1072, 32, 1101,
      1090, 1086, 1075, 1086, 32, 1092, 1086, 1088, 1091, 1084, 1072, 32, 1074, 1099, 32, 1076,
      1086, 1083, 1078, 1085, 1099, 32, 1073, 1099, 1090, 1100, 32, 1072, 1074, 1090, 1086,
      1088, 1080, 1079, 1086, 1074, 1072, 1085, 1099]"

text \<open>
  The block under \<^verbatim>\<open>if content:\<close> of \<^verbatim>\<open>check_topic_visibility\<close>. The marker of
  the first test is the empty string, as in the source:
  \<^verbatim>\<open>bad_gateway = True if content.find('') > 0 else False\<close>. The second admin
  notification formats \<^verbatim>\<open>content[3000]\<close> before it is sent, which raises
  \<^verbatim>\<open>IndexError\<close> on a shorter page.
\<close>

definition check_content ::
  "int \<Rightarrow> ustr \<Rightarrow> state \<Rightarrow> (exn + bool option \<times> bool option \<times> bool \<times> visibility) \<times> state" where
  "check_content search_num c st =
     (let bad_gateway = (py_find c [] > 0);
          st1 = (if py_find c [] > 0
                 then notify_admin (AdminFindTrue search_num bad_gateway) st else st);
          test_old_bad_gateway = (py_find c (u ''Bad Gateway'') > 0)
      in case (if test_old_bad_gateway
               then (case py_index c 3000 of
                       Inl e \<Rightarrow> Inl e
                     | Inr ch \<Rightarrow> Inr (notify_admin (AdminBadGateway search_num ch) st1))
               else Inr st1) of
           Inl e \<Rightarrow> (Inl e, st1)
         | Inr st2 \<Rightarrow>
             if \<not> bad_gateway then
               (let deleted_trigger = (py_find c deleted_marker_dot > -1);
                    visibility1 = (if deleted_trigger then Deleted else Regular);
                    hidden_trigger = (py_find c hidden_marker > -1);
                    visibility2 = (if hidden_trigger then Hidden else visibility1)
                in (Inr (Some deleted_trigger, Some hidden_trigger, bad_gateway, visibility2), st2))
             else (Inr (None, None, bad_gateway, Regular), st2))"

definition check_topic_visibility ::
  "env \<Rightarrow> int \<Rightarrow> state \<Rightarrow> (exn + bool option \<times> bool option \<times> bool \<times> visibility) \<times> state" where
  "check_topic_visibility env search_num st =
     (case parse_search env search_num st of
        (Inl e, st1) \<Rightarrow> (Inl e, st1)
      | (Inr None, st1) \<Rightarrow> (Inr (None, None, False, Regular), st1)
      | (Inr (Some c), st1) \<Rightarrow>
          if c = [] then (Inr (None, None, False, Regular), st1)
          else check_content search_num c st1)"

text \<open>
  \<^verbatim>\<open>update_one_topic_visibility\<close>: delete, then insert, the health-check row of the
  topic, unless the check reported a bad gateway, which is counted instead.
\<close>

definition update_one_topic_visibility :: "env \<Rightarrow> int \<Rightarrow> state \<Rightarrow> (exn + unit) \<times> state" where
  "update_one_topic_visibility env search_id st =
     (case check_topic_visibility env search_id st of
        (Inl e, st1) \<Rightarrow> (Inl e, st1)
      | (Inr (del_trig, hid_trig, bad_gateway_trigger, visibility), st1) \<Rightarrow>
          if \<not> bad_gateway_trigger then
            (Inr (),
             st1\<lparr>search_health_check :=
                   filter (\<lambda>r. hc_search_forum_num r \<noteq> search_id) (search_health_check st1)
                   @ [\<lparr>hc_search_forum_num = search_id,
                       hc_timestamp = now env (clock_reads st1),
                       hc_status = visibility\<rparr>],
                 clock_reads := Suc (clock_reads st1)\<rparr>)
          else (Inr (), count_bad_gateway st1))"

text \<open>
  A row of the query of \<^verbatim>\<open>update_visibility_for_list_of_active_searches\<close>; column 3
  is the status of the health check, a string or \<^verbatim>\<open>None\<close>. The result of the query
  is an argument of the model.
\<close>

record active_row =
  as_status_short :: ustr
  as_search_forum_num :: int
  as_forum_search_title :: ustr
  as_status :: "ustr option"
  as_timestamp :: "nat option"
  as_forum_folder_id :: "int option"

definition truthy_str :: "ustr option \<Rightarrow> bool" where
  "truthy_str v = (case v of None \<Rightarrow> False | Some s \<Rightarrow> s \<noteq> [])"

text \<open>The second loop that fills \<^verbatim>\<open>cleared_list_of_active_searches\<close>, with its break.\<close>

fun add_not_new :: "int \<Rightarrow> active_row list \<Rightarrow> active_row list \<Rightarrow> active_row list" where
  "add_not_new number_of_searches [] cleared = cleared"
| "add_not_new number_of_searches (search # rest) cleared =
     (if truthy_str (as_status search) \<and> as_status search \<noteq> Some (u ''deleted'') then
        (let cleared1 = cleared @ [search]
         in if int (length cleared1) \<ge> number_of_searches then cleared1
            else add_not_new number_of_searches rest cleared1)
      else add_not_new number_of_searches rest cleared)"

definition cleared_list_of_active_searches :: "int \<Rightarrow> active_row list \<Rightarrow> active_row list" where
  "cleared_list_of_active_searches number_of_searches full_list =
     add_not_new number_of_searches full_list
       (filter (\<lambda>search. \<not> truthy_str (as_status search)) full_list)"

text \<open>
  The loop over the cleared list: after each topic the counter is tested and the loop is
  left when it is above 3. An exception leaves the loop too: the enclosing
  \<^verbatim>\<open>try\<close> catches and logs it.
\<close>

fun visibility_loop :: "env \<Rightarrow> int list \<Rightarrow> state \<Rightarrow> state" where
  "visibility_loop env [] st = st"
| "visibility_loop env (search # rest) st =
     (case update_one_topic_visibility env search st of
        (Inl e, st1) \<Rightarrow> st1
      | (Inr _, st1) \<Rightarrow>
          if bad_gateway_counter st1 > 3 then st1 else visibility_loop env rest st1)"

definition update_visibility_for_list_of_active_searches ::
  "env \<Rightarrow> int \<Rightarrow> active_row list \<Rightarrow> state \<Rightarrow> state" where
  "update_visibility_for_list_of_active_searches env number_of_searches full_list st =
     visibility_loop env
       (map as_search_forum_num (cleared_list_of_active_searches number_of_searches full_list)) st"

section \<open>Status of a search, read from the title\<close>

definition title_block_rx :: rx where
  \<comment> \<open>\<^verbatim>\<open><h2 class="topic-title"><a href=.{1,500}</a>\<close>\<close>
  "title_block_rx =
     Cat (Lit (u ''<h2 class=\"topic-title\"><a href=''))
       (Cat (Rep Dot 1 (Some 500)) (Lit (u ''</a>'')))"

definition anchor_text_rx :: rx where
  \<comment> \<open>\<^verbatim>\<open>">.{1,500}</a>\<close>\<close>
  "anchor_text_rx = Cat (Lit (u ''\">'')) (Cat (Rep Dot 1 (Some 500)) (Lit (u ''</a>'')))"

definition propal :: ustr where
  \<comment> \<open>"propal" (went missing)\<close>
  "propal = [1087, 1088, 1086, 1087, 1072, 1083]"

definition naiden :: ustr where
  \<comment> \<open>"naiden" (found)\<close>
  "naiden = [1085, 1072, 1081, 1076, 1077, 1085]"

definition zhiv :: ustr where
  \<comment> \<open>"zhiv" (alive)\<close>
  "zhiv = [1078, 1080, 1074]"

definition pog :: ustr where
  \<comment> \<open>"pog", the stem of "pogib" (died)\<close>
  "pog = [1087, 1086, 1075]"

definition zaversh :: ustr where
  \<comment> \<open>"zaversh", the stem of "zavershen" (completed)\<close>
  "zaversh = [1079, 1072, 1074, 1077, 1088, 1096]"

definition missed_rx :: rx where
  \<comment> \<open>\<^verbatim>\<open>(?i).{0,10}propal.*\<close>\<close>
  "missed_rx = Cat (Rep Dot 0 (Some 10)) (Cat (LitI propal) (Rep Dot 0 None))"

definition alive_rx :: rx where
  \<comment> \<open>\<^verbatim>\<open>(?i).{0,10}(?:naiden|).{0,5}zhiv\<close>\<close>
  "alive_rx =
     Cat (Rep Dot 0 (Some 10)) (Cat (Alt (LitI naiden) Eps) (Cat (Rep Dot 0 (Some 5)) (LitI zhiv)))"

definition dead_rx :: rx where
  \<comment> \<open>\<^verbatim>\<open>(?i).{0,10}(?:naiden|).{0,5}pog\<close>\<close>
  "dead_rx =
     Cat (Rep Dot 0 (Some 10)) (Cat (Alt (LitI naiden) Eps) (Cat (Rep Dot 0 (Some 5)) (LitI pog)))"

definition completed_rx :: rx where
  \<comment> \<open>\<^verbatim>\<open>(?i).{0,10}zaversh.n\<close>; the last letter is code point 1085\<close>
  "completed_rx =
     Cat (Rep Dot 0 (Some 10)) (Cat (LitI zaversh) (Cat (Rep Dot 1 (Some 1)) (LitI [1085])))"

text \<open>
  The title: the text of the anchor inside the title block. \<^verbatim>\<open>pre_title[32:]\<close> drops
  the 32 characters of the block's opening; \<^verbatim>\<open>group()[2:-4]\<close> drops the two
  characters before the text and the closing tag.
\<close>

definition title_of_content :: "ustr \<Rightarrow> ustr option" where
  "title_of_content act_content =
     (case rx_search title_block_rx act_content of
        None \<Rightarrow> None
      | Some pre_title \<Rightarrow>
          (case rx_search anchor_text_rx (slice_from pre_title 32) of
             None \<Rightarrow> None
           | Some g \<Rightarrow> Some (slice_to (slice_from g 2) (- 4))))"

text \<open>The chain of tests on the title; the first pattern found decides.\<close>

definition status_of_title :: "ustr option \<Rightarrow> status option" where
  "status_of_title title =
     (case title of
        None \<Rightarrow> None
      | Some t \<Rightarrow>
          if t = [] then None
          else if rx_search missed_rx t \<noteq> None then Some Ishchem
          else if rx_search alive_rx t \<noteq> None then Some NZh
          else if rx_search dead_rx t \<noteq> None then Some NP
          else if rx_search completed_rx t \<noteq> None then Some Zavershen
          else None)"

definition get_status_from_content_and_send_to_topic_management ::
  "int \<Rightarrow> ustr \<Rightarrow> state \<Rightarrow> state" where
  "get_status_from_content_and_send_to_topic_management topic_id act_content st =
     (case status_of_title (title_of_content act_content) of
        None \<Rightarrow> st
      | Some s \<Rightarrow>
          if s = NZh \<or> s = NP \<or> s = Zavershen
          then publish_to_pubsub (TopicManagement topic_id s) st
          else st)"

section \<open>The first post and its fingerprint\<close>

definition deleted_marker :: ustr where
  \<comment> \<open>"Zaproshennoi temy ne sushchestvuet", without the full stop\<close>
  "deleted_marker =
     [1047, 1072, 1087, 1088, 1086, 1096, 1077, 1085, 1085, 1086, 1081, 32, 1090, 1077, 1084,
      1099, 32, 1085, 1077, 32, 1089, 1091, 1097, 1077, 1089, 1090, 1074, 1091, 1077, 1090]"

text \<open>
  The four cuts that delimit the first post. A marker that is not found gives \<open>-1\<close>,
  and the slices are taken with it all the same.
\<close>

definition cut_first_post :: "ustr \<Rightarrow> ustr" where
  "cut_first_post content0 =
     (let start = py_find content0 (u ''<div class=\"content\">'');
          content1 = slice_from content0 (start + 21);
          next_block = py_find content1 (u ''<div class=\"back2top\">'');
          content2 = slice_to content1 (next_block - 12);
          fin_div = py_rfind content2 (u ''</div>'');
          content3 = slice_to content2 fin_div;
          finish = py_rfind content3 (u ''>'')
      in slice_to content3 (finish + 1))"

definition prosmotr :: ustr where
  \<comment> \<open>" prosmotr" (view), with the space before it\<close>
  "prosmotr = [32, 1087, 1088, 1086, 1089, 1084, 1086, 1090, 1088]"

definition ending_a :: ustr where
  \<comment> \<open>the ending "a"\<close>
  "ending_a = [1072]"

definition ending_ov :: ustr where
  \<comment> \<open>the ending "ov"\<close>
  "ending_ov = [1086, 1074]"

definition views_rx :: rx where
  \<comment> \<open>\<^verbatim>\<open>\) \d+ prosmotr(?:a|ov)?\<close>\<close>
  "views_rx =
     Cat (Lit (u '') ''))
       (Cat (Rep Digit 1 None)
          (Cat (Lit prosmotr) (Alt (Lit ending_a) (Alt (Lit ending_ov) Eps))))"

definition patterns_list :: "rx list" where
  \<comment> \<open>\<^verbatim>\<open>value="\S{10}"\<close>, \<^verbatim>\<open>value="\S{32}"\<close>, \<^verbatim>\<open>value="\S{40}"\<close>,
      \<^verbatim>\<open>sid=\S{32}&amp;\<close>,
      \<^verbatim>\<open><span class="footer-info"><span title="SQL time:.{120,130}</span></span>\<close>\<close>
  "patterns_list =
     [Cat (Lit (u ''value=\"'')) (Cat (Rep NonSpace 10 (Some 10)) (Lit (u ''\"''))),
      Cat (Lit (u ''value=\"'')) (Cat (Rep NonSpace 32 (Some 32)) (Lit (u ''\"''))),
      Cat (Lit (u ''value=\"'')) (Cat (Rep NonSpace 40 (Some 40)) (Lit (u ''\"''))),
      Cat (Lit (u ''sid='')) (Cat (Rep NonSpace 32 (Some 32)) (Lit (u ''&amp;''))),
      Cat (Lit (u ''<span class=\"footer-info\"><span title=\"SQL time:''))
        (Cat (Rep Dot 120 (Some 130)) (Lit (u ''</span></span>'')))]"

text \<open>
  The words found by \<^verbatim>\<open>re.findall\<close> are replaced one after the other, each in the
  content as the replacements before it left it.
\<close>

definition replace_words :: "ustr list \<Rightarrow> ustr \<Rightarrow> ustr \<Rightarrow> ustr" where
  "replace_words patterns new content0 = fold (\<lambda>word c. py_replace c word new) patterns content0"

definition exclude_views :: "ustr \<Rightarrow> ustr" where
  "exclude_views content0 = replace_words (rx_findall views_rx content0) (u '')'') content0"

definition exclude_tokens :: "ustr \<Rightarrow> ustr" where
  "exclude_tokens content0 =
     replace_words (concat (map (\<lambda>pat. rx_findall pat content0) patterns_list)) [] content0"

definition normalized_first_post :: "ustr \<Rightarrow> ustr" where
  "normalized_first_post content0 = exclude_tokens (exclude_views (cut_first_post content0))"

text \<open>
  \<^verbatim>\<open>parse_first_post\<close> returns \<^verbatim>\<open>hash_num, content, bad_gateway, not_found\<close>.
  An empty or missing page skips the whole block under \<^verbatim>\<open>if content:\<close>.
\<close>

definition parse_first_post ::
  "env \<Rightarrow> int \<Rightarrow> state \<Rightarrow> (exn + ustr option \<times> ustr option \<times> bool \<times> bool) \<times> state" where
  "parse_first_post env search_num st =
     (case parse_search env search_num st of
        (Inl e, st1) \<Rightarrow> (Inl e, st1)
      | (Inr None, st1) \<Rightarrow> (Inr (None, None, False, False), st1)
      | (Inr (Some c), st1) \<Rightarrow>
          if c = [] then (Inr (None, Some c, False, False), st1)
          else
            (let bad_gateway = (py_find c (u ''502 Bad Gateway'') > 0);
                 not_found = (py_find c deleted_marker > 0)
             in if \<not> bad_gateway \<and> \<not> not_found then
                  (let st2 = get_status_from_content_and_send_to_topic_management search_num c st1;
                       c1 = normalized_first_post c
                   in (Inr (Some (md5 env c1), Some c1, bad_gateway, not_found), st2))
                else (Inr (None, Some c, bad_gateway, not_found), st1)))"

section \<open>Choosing the searches to check\<close>

text \<open>
  A row of the query of \<^verbatim>\<open>get_list_of_searches_for_first_post_and_status_update\<close>,
  by column: the topic, the start of the search, the folder, the time of the last
  first-post check, the number of checks made, and the number of searches in the folder.
  Every column but the first may be \<^verbatim>\<open>None\<close>. The result of the query is an
  argument of the model. Times are counted from \<^verbatim>\<open>datetime.datetime(1, 1, 1, 0, 0)\<close>.
\<close>

record sql_row =
  line0 :: int             \<comment> \<open>\<^verbatim>\<open>search_forum_num\<close>\<close>
  line1 :: "nat option"    \<comment> \<open>\<^verbatim>\<open>search_start_time\<close>\<close>
  line2 :: "int option"    \<comment> \<open>\<^verbatim>\<open>forum_folder_id\<close>\<close>
  line3 :: "nat option"    \<comment> \<open>\<^verbatim>\<open>timestamp\<close> of the current snapshot\<close>
  line4 :: "int option"    \<comment> \<open>\<^verbatim>\<open>num_of_checks\<close> of the current snapshot\<close>
  line5 :: "int option"    \<comment> \<open>\<^verbatim>\<open>count\<close> of the searches in the folder\<close>

text \<open>
  A line of \<^verbatim>\<open>base_table\<close>:
  \<^verbatim>\<open>new_line = [line[0], line[1], line[3], line[5], line[4]]\<close>. The rank that each
  sort appends to every line is never read and is left out.
\<close>

record table_line =
  x0 :: int             \<comment> \<open>the topic\<close>
  x1 :: "nat option"    \<comment> \<open>start of the search\<close>
  x2 :: nat             \<comment> \<open>time of the last check\<close>
  x3 :: "int option"    \<comment> \<open>searches in the folder\<close>
  x4 :: int             \<comment> \<open>checks made\<close>

definition oldest_date :: nat where
  \<comment> \<open>\<^verbatim>\<open>datetime.datetime(1, 1, 1, 0, 0)\<close>\<close>
  "oldest_date = 0"

text \<open>
  \<^verbatim>\<open>if not line[3]: new_line[2] = datetime.datetime(1, 1, 1, 0, 0)\<close> and
  \<^verbatim>\<open>if not line[4]: new_line[4] = 1\<close>; a number of checks that is 0 is falsy too.
\<close>

definition or_one :: "int option \<Rightarrow> int" where
  \<comment> \<open>a number of checks, replaced by 1 when it is \<^verbatim>\<open>None\<close> or 0\<close>
  "or_one v = (case v of None \<Rightarrow> 1 | Some n \<Rightarrow> if n = 0 then 1 else n)"

definition new_line :: "sql_row \<Rightarrow> table_line" where
  "new_line line =
     \<lparr>x0 = line0 line,
      x1 = line1 line,
      x2 = (case line3 line of None \<Rightarrow> oldest_date | Some t \<Rightarrow> t),
      x3 = line5 line,
      x4 = or_one (line4 line)\<rparr>"

definition form_base_table :: "sql_row list \<Rightarrow> table_line list" where
  "form_base_table raw_sql_extract = map new_line raw_sql_extract"

text \<open>
  \<^verbatim>\<open>list.sort(key=..., reverse=...)\<close> is stable; with \<^verbatim>\<open>reverse=True\<close> Python
  reverses the list, sorts it and reverses the result. A key that is \<^verbatim>\<open>None\<close>
  cannot be compared: sorting two or more lines of which one has such a key raises
  \<^verbatim>\<open>TypeError\<close>.
\<close>

definition py_sort :: "('a \<Rightarrow> 'k::linorder) \<Rightarrow> bool \<Rightarrow> 'a list \<Rightarrow> 'a list" where
  "py_sort key reverse xs = (if reverse then rev (sort_key key (rev xs)) else sort_key key xs)"

definition py_sort_opt ::
  "('a \<Rightarrow> 'k::linorder option) \<Rightarrow> bool \<Rightarrow> 'a list \<Rightarrow> exn + 'a list" where
  "py_sort_opt key reverse xs =
     (if 2 \<le> length xs \<and> list_ex (\<lambda>x. key x = None) xs then Inl TypeError
      else Inr (py_sort key reverse xs))"

text \<open>
  \<^verbatim>\<open>random.shuffle\<close>, as the standard library does it: for \<open>i\<close> from the last index
  down to 1, swap the elements at \<open>i\<close> and at a random index below \<open>i + 1\<close>. The first
  argument counts the random numbers drawn.
\<close>

fun shuffle_from :: "(nat \<Rightarrow> nat \<Rightarrow> nat) \<Rightarrow> nat \<Rightarrow> nat \<Rightarrow> 'a list \<Rightarrow> 'a list" where
  "shuffle_from rb k 0 xs = xs"
| "shuffle_from rb k (Suc i) xs =
     (let j = rb k (Suc (Suc i)) mod Suc (Suc i)
      in shuffle_from rb (Suc k) i (xs[Suc i := xs ! j, j := xs ! Suc i]))"

definition shuffle :: "(nat \<Rightarrow> nat \<Rightarrow> nat) \<Rightarrow> 'a list \<Rightarrow> 'a list" where
  "shuffle rb xs = shuffle_from rb 0 (length xs - 1) xs"

text \<open>
  The loop of the criteria 2 to 5: walk the table, append a line whose topic is not in
  \<^verbatim>\<open>outcome_list\<close> yet while the group is not full, and leave the loop when the
  group counter is 0.
\<close>

fun pick_loop :: "table_line list \<Rightarrow> table_line list \<Rightarrow> int \<Rightarrow> table_line list" where
  "pick_loop [] outcome_list group_of_searches = outcome_list"
| "pick_loop (line # rest) outcome_list group_of_searches =
     (if x0 line \<notin> set (map x0 outcome_list) \<and> group_of_searches > 0
      then pick_loop rest (outcome_list @ [line]) (group_of_searches - 1)
      else if group_of_searches = 0 then outcome_list
      else pick_loop rest outcome_list group_of_searches)"

text \<open>
  The loop of criterion 1, \<^verbatim>\<open>for j in range(group_of_searches):
  outcome_list.append(base_table[j])\<close>: it does not look at what is selected already,
  and it raises \<^verbatim>\<open>IndexError\<close> after the last line when the group is larger than
  the table.
\<close>

definition pick_first ::
  "table_line list \<Rightarrow> table_line list \<Rightarrow> int \<Rightarrow> exn option \<times> table_line list" where
  "pick_first base_table outcome_list group_of_searches =
     (if int (length base_table) < group_of_searches
      then (Some IndexError, outcome_list @ base_table)
      else (None, outcome_list @ take (nat group_of_searches) base_table))"

text \<open>
  One criterion: sort (or shuffle) the table, read the weight, compute the size of
  the group, pick. The result is the exception raised, if any, the table and
  \<^verbatim>\<open>outcome_list\<close> as the criterion leaves them. The criteria are numbered 1 to 5 in
  the order of the source: \<^verbatim>\<open>start_time\<close>, \<^verbatim>\<open>upd_time\<close>,
  \<^verbatim>\<open>folder_weight\<close>, \<^verbatim>\<open>checks_made\<close>, \<^verbatim>\<open>random\<close>.
\<close>

type_synonym weights = "string \<rightharpoonup> int"

definition weight_key :: "nat \<Rightarrow> string" where
  "weight_key k =
     (if k = 1 then ''start_time'' else if k = 2 then ''upd_time''
      else if k = 3 then ''folder_weight'' else if k = 4 then ''checks_made'' else ''random'')"

definition sorted_table :: "env \<Rightarrow> nat \<Rightarrow> table_line list \<Rightarrow> exn + table_line list" where
  "sorted_table env k base_table =
     (if k = 1 then py_sort_opt x1 True base_table
      else if k = 2 then Inr (py_sort x2 False base_table)
      else if k = 3 then py_sort_opt x3 True base_table
      else if k = 4 then Inr (py_sort x4 False base_table)
      else Inr (shuffle (randbelow env) base_table))"

definition criterion ::
  "env \<Rightarrow> weights \<Rightarrow> int \<Rightarrow> nat \<Rightarrow> table_line list \<Rightarrow> table_line list
     \<Rightarrow> exn option \<times> table_line list \<times> table_line list" where
  "criterion env weights num_of_searches k base_table outcome_list =
     (case sorted_table env k base_table of
        Inl e \<Rightarrow> (Some e, base_table, outcome_list)
      | Inr base_table1 \<Rightarrow>
          (case weights (weight_key k) of
             None \<Rightarrow> (Some KeyError, base_table1, outcome_list)
           | Some w \<Rightarrow>
               (let group_of_searches = round_quota env w num_of_searches
                in if k = 1 then
                     (case pick_first base_table1 outcome_list group_of_searches of
                        (e, outcome_list1) \<Rightarrow> (e, base_table1, outcome_list1))
                   else (None, base_table1,
                         pick_loop base_table1 outcome_list group_of_searches))))"

text \<open>
  The first \<open>k\<close> criteria, run one after the other on the table and the list that the
  one before left. An exception ends the \<^verbatim>\<open>try\<close> block: the criteria after it do
  not run, and \<^verbatim>\<open>outcome_list\<close> stays as it is.
\<close>

fun run_criteria ::
  "env \<Rightarrow> weights \<Rightarrow> int \<Rightarrow> table_line list \<Rightarrow> nat
     \<Rightarrow> exn option \<times> table_line list \<times> table_line list" where
  "run_criteria env weights num_of_searches base_table 0 = (None, base_table, [])"
| "run_criteria env weights num_of_searches base_table (Suc k) =
     (case run_criteria env weights num_of_searches base_table k of
        (Some e, base_table1, outcome_list) \<Rightarrow> (Some e, base_table1, outcome_list)
      | (None, base_table1, outcome_list) \<Rightarrow>
          criterion env weights num_of_searches (Suc k) base_table1 outcome_list)"

definition num_of_searches_of :: "env \<Rightarrow> int \<Rightarrow> table_line list \<Rightarrow> int" where
  \<comment> \<open>\<^verbatim>\<open>round(len(base_table) * percent_of_searches / 100)\<close>\<close>
  "num_of_searches_of env percent_of_searches base_table =
     round_fraction env (int (length base_table) * percent_of_searches)"

text \<open>
  \<open>outcome_after \<dots> k\<close> is \<^verbatim>\<open>outcome_list\<close> when the first \<open>k\<close> criteria have run
  (or have been skipped after an exception). Nothing runs unless
  \<^verbatim>\<open>percent_of_searches > 0\<close>. The function returns the list after the fifth
  criterion.
\<close>

definition outcome_after ::
  "env \<Rightarrow> int \<Rightarrow> weights \<Rightarrow> sql_row list \<Rightarrow> nat \<Rightarrow> table_line list" where
  "outcome_after env percent_of_searches weights raw_sql_extract k =
     (if percent_of_searches > 0 then
        (let base_table = form_base_table raw_sql_extract
         in snd (snd (run_criteria env weights
                        (num_of_searches_of env percent_of_searches base_table) base_table k)))
      else [])"

definition get_list_of_searches_for_first_post_and_status_update ::
  "env \<Rightarrow> int \<Rightarrow> weights \<Rightarrow> sql_row list \<Rightarrow> table_line list" where
  "get_list_of_searches_for_first_post_and_status_update env percent_of_searches weights
       raw_sql_extract =
     outcome_after env percent_of_searches weights raw_sql_extract 5"

text \<open>
  What criterion \<open>k\<close> added to \<^verbatim>\<open>outcome_list\<close>: the list after it, without the
  list before it.
\<close>

definition contribution ::
  "env \<Rightarrow> int \<Rightarrow> weights \<Rightarrow> sql_row list \<Rightarrow> nat \<Rightarrow> table_line list" where
  "contribution env percent_of_searches weights raw_sql_extract k =
     drop (length (outcome_after env percent_of_searches weights raw_sql_extract (k - 1)))
       (outcome_after env percent_of_searches weights raw_sql_extract k)"

text \<open>
  The size of the group of criterion \<open>k\<close>, as the source computes it:
  \<^verbatim>\<open>round(weights[...] / 100 * num_of_searches)\<close>; none when the weight is missing.
\<close>

definition group_size :: "env \<Rightarrow> int \<Rightarrow> weights \<Rightarrow> sql_row list \<Rightarrow> nat \<Rightarrow> int option" where
  "group_size env percent_of_searches weights raw_sql_extract k =
     map_option
       (\<lambda>w. round_quota env w
              (num_of_searches_of env percent_of_searches (form_base_table raw_sql_extract)))
       (weights (weight_key k))"

text \<open>
  The table and the exception, if any, when the first \<open>k\<close> criteria have run.
\<close>

definition table_after ::
  "env \<Rightarrow> int \<Rightarrow> weights \<Rightarrow> sql_row list \<Rightarrow> nat \<Rightarrow> table_line list" where
  "table_after env percent_of_searches weights raw_sql_extract k =
     (let base_table = form_base_table raw_sql_extract
      in fst (snd (run_criteria env weights
                     (num_of_searches_of env percent_of_searches base_table) base_table k)))"

definition error_after ::
  "env \<Rightarrow> int \<Rightarrow> weights \<Rightarrow> sql_row list \<Rightarrow> nat \<Rightarrow> exn option" where
  "error_after env percent_of_searches weights raw_sql_extract k =
     (let base_table = form_base_table raw_sql_extract
      in fst (run_criteria env weights
                (num_of_searches_of env percent_of_searches base_table) base_table k))"

text \<open>
  The picks of a criterion in the words of the specification: walk the sorted order and
  take the first \<open>quota\<close> lines whose topic is not selected already. This definition is
  not taken from the source; the loops of the source are compared with it below.
\<close>

definition first_not_selected ::
  "table_line list \<Rightarrow> table_line list \<Rightarrow> int \<Rightarrow> table_line list" where
  "first_not_selected sorted_order selected quota =
     take (nat quota) (filter (\<lambda>line. x0 line \<notin> set (map x0 selected)) sorted_order)"

text \<open>
  The order of each criterion in the words of the specification: newest start first,
  oldest last update first, largest folder first, fewest checks first; the fifth order
  is random and asks nothing.
\<close>

definition in_criterion_order :: "nat \<Rightarrow> table_line list \<Rightarrow> bool" where
  "in_criterion_order k t =
     (if k = 1 then sorted (rev (map x1 t))
      else if k = 2 then sorted (map x2 t)
      else if k = 3 then sorted (rev (map x3 t))
      else if k = 4 then sorted (map x4 t)
      else True)"

text \<open>
  Two conditions on what the selection is given, under which no criterion raises before
  its loop: the dictionary of weights has the five keys, and every row has a start time
  and a number of searches in its folder, the two keys that are sorted as they come from
  the query (a table of fewer than two lines is sorted without a comparison).
\<close>

definition weights_present :: "weights \<Rightarrow> bool" where
  "weights_present weights = list_all (\<lambda>k. weights (weight_key k) \<noteq> None) [1, 2, 3, 4, 5]"

definition keys_present :: "sql_row list \<Rightarrow> bool" where
  "keys_present raw_sql_extract =
     (length raw_sql_extract < 2
      \<or> list_all (\<lambda>line. line1 line \<noteq> None \<and> line5 line \<noteq> None) raw_sql_extract)"

text \<open>
  Rounding of the exact quotient, half to even. It is what \<^verbatim>\<open>round\<close> returns when
  the floating-point division and product are exact, and may differ from Python's result
  otherwise. No theorem depends on it: only the concrete environments below use it, at
  values where both agree.
\<close>

definition round_half_even :: "int \<Rightarrow> int \<Rightarrow> int" where
  "round_half_even a b =
     (let q = a div b; r = a mod b
      in if 2 * r < b then q else if 2 * r > b then q + 1 else if even q then q else q + 1)"

section \<open>Checking the first posts\<close>

text \<open>
  The block of \<^verbatim>\<open>update_first_posts_and_statuses\<close> that compares the hash with the
  current snapshot and writes table \<^verbatim>\<open>search_first_posts\<close>. The second component is
  \<^verbatim>\<open>list_of_searches_with_updated_first_posts\<close>. The query returns the first
  current snapshot of the topic, if there is one; a number of checks that is missing
  or 0 counts as 1.
\<close>

definition is_current_of :: "int \<Rightarrow> snapshot \<Rightarrow> bool" where
  \<comment> \<open>\<^verbatim>\<open>WHERE search_id = :a AND actual = TRUE\<close>\<close>
  "is_current_of a r \<longleftrightarrow> fp_search_id r = a \<and> fp_actual r"

definition new_record :: "env \<Rightarrow> int \<Rightarrow> ustr option \<Rightarrow> ustr option \<Rightarrow> state \<Rightarrow> snapshot" where
  \<comment> \<open>\<^verbatim>\<open>VALUES (:a, :b, TRUE, :c, :d, :e)\<close> with \<^verbatim>\<open>e=1\<close>\<close>
  "new_record env a act_hash act_content st =
     \<lparr>fp_search_id = a, fp_timestamp = now env (clock_reads st), fp_actual = True,
      fp_content_hash = act_hash, fp_content = act_content, fp_num_of_checks = Some 1\<rparr>"

definition check_latest_hash ::
  "env \<Rightarrow> int \<Rightarrow> ustr option \<Rightarrow> ustr option \<Rightarrow> state \<times> int list \<Rightarrow> state \<times> int list" where
  "check_latest_hash env a act_hash act_content sl =
     (case sl of (st, updated) \<Rightarrow>
        (case find (is_current_of a) (search_first_posts st) of
           Some raw_data \<Rightarrow>
             (let last_hash = fp_content_hash raw_data;
                  prev_number_of_checks = or_one (fp_num_of_checks raw_data)
              in if act_hash \<noteq> last_hash then
                   (st\<lparr>search_first_posts :=
                         map (\<lambda>r. if fp_search_id r = a then r\<lparr>fp_actual := False\<rparr> else r)
                           (search_first_posts st)
                         @ [new_record env a act_hash act_content st],
                       clock_reads := Suc (clock_reads st)\<rparr>,
                    updated @ [a])
                 else
                   (st\<lparr>search_first_posts :=
                         map (\<lambda>r. if is_current_of a r
                                   then r\<lparr>fp_num_of_checks := Some (prev_number_of_checks + 1)\<rparr>
                                   else r)
                           (search_first_posts st)\<rparr>,
                    updated))
         | None \<Rightarrow>
             (st\<lparr>search_first_posts :=
                   search_first_posts st @ [new_record env a act_hash act_content st],
                 clock_reads := Suc (clock_reads st)\<rparr>,
              updated)))"

text \<open>One turn of the loop of \<^verbatim>\<open>update_first_posts_and_statuses\<close>.\<close>

definition check_one_first_post ::
  "env \<Rightarrow> int \<Rightarrow> state \<times> int list \<Rightarrow> (exn + unit) \<times> state \<times> int list" where
  "check_one_first_post env a sl =
     (case sl of (st, updated) \<Rightarrow>
        (case parse_first_post env a st of
           (Inl e, st1) \<Rightarrow> (Inl e, st1, updated)
         | (Inr (act_hash, act_content, bad_gateway_trigger, not_found_trigger), st1) \<Rightarrow>
             if \<not> bad_gateway_trigger \<and> \<not> not_found_trigger
               then (Inr (), check_latest_hash env a act_hash act_content (st1, updated))
             else if bad_gateway_trigger then (Inr (), count_bad_gateway st1, updated)
             else if not_found_trigger then
               (case update_one_topic_visibility env a st1 of
                  (Inl e, st2) \<Rightarrow> (Inl e, st2, updated)
                | (Inr _, st2) \<Rightarrow> (Inr (), st2, updated))
             else (Inr (), st1, updated)))"

text \<open>
  The loop: every line of the list is checked in turn. The counter is not read in this
  loop. An exception leaves the loop: the enclosing \<^verbatim>\<open>try\<close> catches and logs it.
\<close>

fun first_posts_loop :: "env \<Rightarrow> int list \<Rightarrow> state \<times> int list \<Rightarrow> state \<times> int list" where
  "first_posts_loop env [] sl = sl"
| "first_posts_loop env (a # rest) sl =
     (case check_one_first_post env a sl of
        (Inl e, sl1) \<Rightarrow> sl1
      | (Inr _, sl1) \<Rightarrow> first_posts_loop env rest sl1)"

definition update_first_posts_and_statuses ::
  "env \<Rightarrow> int \<Rightarrow> weights \<Rightarrow> sql_row list \<Rightarrow> state \<Rightarrow> state" where
  "update_first_posts_and_statuses env percent_of_searches weights raw_sql_extract st =
     (let list_of_searches =
            get_list_of_searches_for_first_post_and_status_update env percent_of_searches
              weights raw_sql_extract
      in case first_posts_loop env (map x0 list_of_searches) (st, []) of
           (st1, updated) \<Rightarrow>
             if updated \<noteq> [] then publish_to_pubsub (FirstPostProcessing updated) st1 else st1)"

section \<open>Concrete states and environments\<close>

text \<open>
  The state at the start of an invocation with empty tables, and an environment built
  around a given HTTP behaviour: the clock starts at 1000, the fingerprint is the text
  itself, rounding is exact, and every random number is 0.
\<close>

definition initial_state :: state where
  "initial_state =
     \<lparr>bad_gateway_counter = 0, published = [], search_health_check = [],
      search_first_posts = [], requests_made = 0, clock_reads = 0\<rparr>"

definition env_with :: "(nat \<Rightarrow> int \<Rightarrow> exn + ustr) \<Rightarrow> env" where
  "env_with h =
     \<lparr>http = h, now = (\<lambda>n. 1000 + n), md5 = (\<lambda>s. s),
      round_fraction = (\<lambda>x. round_half_even x 100),
      round_quota = (\<lambda>w n. round_half_even (w * n) 100),
      randbelow = (\<lambda>k n. 0)\<rparr>"

text \<open>The error page of a gateway, as nginx writes it (without its line breaks).\<close>

definition bad_gateway_page :: ustr where
  "bad_gateway_page =
     u ''<html><head><title>502 Bad Gateway</title></head><body><center><h1>502 Bad Gateway</h1></center><hr><center>nginx</center></body></html>''"


text \<open>
  The weights of \<^verbatim>\<open>main\<close>, and a population of 100 searches never checked before,
  numbered from 1, each started at the time of its number, in a folder of 3 searches.
\<close>

definition main_weights :: weights where
  "main_weights =
     [''start_time'' \<mapsto> 20, ''upd_time'' \<mapsto> 20, ''folder_weight'' \<mapsto> 20,
      ''checks_made'' \<mapsto> 20, ''random'' \<mapsto> 20]"

definition population :: "nat \<Rightarrow> sql_row list" where
  "population n =
     map (\<lambda>i. \<lparr>line0 = int i, line1 = Some i, line2 = Some 1, line3 = None, line4 = None,
                line5 = Some 3\<rparr>) [1 ..< Suc n]"

text \<open>
  The invariant of table \<^verbatim>\<open>search_first_posts\<close>: no two current snapshots are of
  the same topic.
\<close>

definition at_most_one_current :: "snapshot list \<Rightarrow> bool" where
  "at_most_one_current tbl = distinct (map fp_search_id (filter fp_actual tbl))"

text \<open>A state in which topic 7 has one current snapshot, checked 3 times.\<close>

definition old_snapshot :: snapshot where
  "old_snapshot =
     \<lparr>fp_search_id = 7, fp_timestamp = 900, fp_actual = True,
      fp_content_hash = Some (u ''old''), fp_content = Some (u ''<p>old</p>''),
      fp_num_of_checks = Some 3\<rparr>"

definition state_with_snapshot :: state where
  "state_with_snapshot = initial_state\<lparr>search_first_posts := [old_snapshot]\<rparr>"

text \<open>
  Titles, by code points: "Ivanov Ivan, 45, propal"; "Ivanov Ivan, 45 NZh" (the
  abbreviation, code points 1053 1046); "Naiden, zhiv Ivanov Ivan, 45"; and
  "Ivanov Ivan, 45". \<open>topic_page\<close> is a page of topic 7 whose title block holds the
  given title on a line of its own.
\<close>

definition title_propal :: ustr where
  "title_propal =
     [1048, 1074, 1072, 1085, 1086, 1074, 32, 1048, 1074, 1072, 1085, 44, 32, 52, 53, 44, 32,
      1087, 1088, 1086, 1087, 1072, 1083]"

definition title_nzh :: ustr where
  "title_nzh =
     [1048, 1074, 1072, 1085, 1086, 1074, 32, 1048, 1074, 1072, 1085, 44, 32, 52, 53, 32,
      1053, 1046]"

definition title_naiden_zhiv :: ustr where
  "title_naiden_zhiv =
     [1053, 1072, 1081, 1076, 1077, 1085, 44, 32, 1078, 1080, 1074, 32, 1048, 1074, 1072, 1085,
      1086, 1074, 32, 1048, 1074, 1072, 1085, 44, 32, 52, 53]"

definition title_plain :: ustr where
  "title_plain = [1048, 1074, 1072, 1085, 1086, 1074, 32, 1048, 1074, 1072, 1085, 44, 32, 52, 53]"

definition topic_page :: "ustr \<Rightarrow> ustr" where
  "topic_page title =
     u ''<h2 class=\"topic-title\"><a href=\"./viewtopic.php?f=276&amp;t=7\">'' @ title
     @ u ''</a></h2>'' @ [10] @ u ''<p><a href=\"./index.php\">index</a></p>''"

text \<open>
  A page longer than 3000 characters that carries the gateway error: 3000 spaces
  before the error page.
\<close>

definition long_bad_gateway_page :: ustr where
  "long_bad_gateway_page = replicate 3000 32 @ bad_gateway_page"

text \<open>
  Two pages for the fingerprint. \<open>views_page n\<close> is a topic page with both markers whose
  first post shows two pictures, the first viewed \<open>n\<close> times ("n prosmotr") and the second
  5 times ("5 prosmotrov"). \<open>bare_page n\<close> is a page without any marker that starts with
  a view counter.
\<close>

definition views_page :: "ustr \<Rightarrow> ustr" where
  "views_page n =
     u ''<html><div class=\"content\"><p>(1 MB) '' @ n @ prosmotr @ u '', (2 MB) 5'' @ prosmotr
     @ ending_ov @ u ''</p></div>'' @ replicate 12 32
     @ u ''<div class=\"back2top\"></div></html>''"

definition bare_page :: "ustr \<Rightarrow> ustr" where
  "bare_page n = u '') '' @ n @ prosmotr @ ending_ov @ u ''<p>abcdefghij</p>0123456789ABCD''"

text \<open>
  A population of six searches, by row: topic, start, folder, last check, checks made,
  searches in the folder. Search 2 was never checked.
\<close>

definition small_population :: "sql_row list" where
  "small_population =
     [\<lparr>line0 = 1, line1 = Some 10, line2 = Some 1, line3 = Some 50, line4 = Some 5, line5 = Some 3\<rparr>,
      \<lparr>line0 = 2, line1 = Some 20, line2 = Some 2, line3 = None, line4 = None, line5 = Some 9\<rparr>,
      \<lparr>line0 = 3, line1 = Some 30, line2 = Some 3, line3 = Some 40, line4 = Some 2, line5 = Some 1\<rparr>,
      \<lparr>line0 = 4, line1 = Some 40, line2 = Some 4, line3 = Some 60, line4 = Some 7, line5 = Some 7\<rparr>,
      \<lparr>line0 = 5, line1 = Some 50, line2 = Some 5, line3 = Some 30, line4 = Some 1, line5 = Some 5\<rparr>,
      \<lparr>line0 = 6, line1 = Some 60, line2 = Some 6, line3 = Some 70, line4 = Some 9, line5 = Some 2\<rparr>]"

section \<open>Properties\<close>

lemma find_empty_is_zero: "py_find s [] = 0"
  by (cases s) (simp_all add: py_find_def)

subsection \<open>Choosing the searches\<close>

lemma pick_loop_prefix: "prefix outcome_list (pick_loop t outcome_list g)"
proof (induction t arbitrary: outcome_list g)
  case Nil
  then show ?case by simp
next
  case (Cons line rest)
  show ?case
    using Cons.IH [of "outcome_list @ [line]" "g - 1"] Cons.IH [of outcome_list g]
    by (auto dest: append_prefixD)
qed

lemma pick_loop_set: "set (pick_loop t outcome_list g) \<subseteq> set outcome_list \<union> set t"
proof (induction t arbitrary: outcome_list g)
  case Nil
  then show ?case by simp
next
  case (Cons line rest)
  show ?case
    using Cons.IH [of "outcome_list @ [line]" "g - 1"] Cons.IH [of outcome_list g]
    by auto
qed

lemma pick_loop_distinct:
  "distinct (map x0 outcome_list) \<Longrightarrow> distinct (map x0 (pick_loop t outcome_list g))"
proof (induction t arbitrary: outcome_list g)
  case Nil
  then show ?case by simp
next
  case (Cons line rest)
  show ?case
    using Cons.IH [of "outcome_list @ [line]" "g - 1"] Cons.IH [of outcome_list g] Cons.prems
    by auto
qed

lemma pick_loop_length:
  "int (length (pick_loop t outcome_list g)) \<le> int (length outcome_list) + max 0 g"
proof (induction t arbitrary: outcome_list g)
  case Nil
  then show ?case by simp
next
  case (Cons line rest)
  show ?case
    using Cons.IH [of "outcome_list @ [line]" "g - 1"] Cons.IH [of outcome_list g]
    by auto
qed

lemma shuffle_from_mset:
  "i < length xs \<or> i = 0 \<Longrightarrow> mset (shuffle_from rb k i xs) = mset xs"
proof (induction i arbitrary: xs k)
  case 0
  then show ?case by simp
next
  case (Suc i)
  let ?j = "rb k (Suc (Suc i)) mod Suc (Suc i)"
  let ?ys = "xs[Suc i := xs ! ?j, ?j := xs ! Suc i]"
  from Suc.prems have len: "Suc i < length xs" by simp
  have "?j < Suc (Suc i)" by simp
  with len have j: "?j < length xs" by linarith
  have "mset ?ys = mset xs" using mset_swap [OF j len] by simp
  moreover have "mset (shuffle_from rb (Suc k) i ?ys) = mset ?ys"
    using Suc.IH [of ?ys "Suc k"] len by simp
  ultimately show ?case by (simp add: Let_def)
qed

lemma shuffle_mset: "mset (shuffle rb xs) = mset xs"
  unfolding shuffle_def by (rule shuffle_from_mset) (cases xs; simp)

lemma py_sort_mset: "mset (py_sort key reverse xs) = mset xs"
  by (simp add: py_sort_def)

lemma sorted_table_mset:
  "sorted_table env k t = Inr t1 \<Longrightarrow> mset t1 = mset t"
  by (auto simp add: sorted_table_def py_sort_opt_def py_sort_mset shuffle_mset split: if_splits)

lemma pick_first_prefix: "prefix outcome_list (snd (pick_first t outcome_list g))"
  by (simp add: pick_first_def)

lemma pick_first_set: "set (snd (pick_first t outcome_list g)) \<subseteq> set outcome_list \<union> set t"
  by (auto simp add: pick_first_def dest: in_set_takeD)

lemma pick_first_distinct:
  "distinct (map x0 t) \<Longrightarrow> distinct (map x0 (snd (pick_first t [] g)))"
  by (simp add: pick_first_def take_map [symmetric])

lemma pick_first_length:
  "int (length (snd (pick_first t outcome_list g))) \<le> int (length outcome_list) + max 0 g"
  by (simp add: pick_first_def)

lemma distinct_x0_mset:
  assumes "mset t1 = mset t" and "distinct (map x0 t)"
  shows "distinct (map x0 t1)"
proof -
  from assms(1) have "mset (map x0 t1) = mset (map x0 t)" by simp
  then show ?thesis using assms(2) by (metis mset_eq_imp_distinct_iff)
qed

lemma criterion_prefix:
  "criterion env weights num k t outcome_list = (e, t1, outcome_list1)
   \<Longrightarrow> prefix outcome_list outcome_list1"
  using pick_first_prefix [of outcome_list] pick_loop_prefix [of outcome_list]
  by (auto simp add: criterion_def Let_def split: sum.splits option.splits if_splits prod.splits)
     (metis snd_conv)

lemma criterion_table:
  "criterion env weights num k t outcome_list = (e, t1, outcome_list1)
   \<Longrightarrow> mset t1 = mset t"
  by (auto simp add: criterion_def Let_def sorted_table_mset
      split: sum.splits option.splits if_splits prod.splits)

lemma criterion_set:
  assumes "criterion env weights num k t outcome_list = (e, t1, outcome_list1)"
  shows "set outcome_list1 \<subseteq> set outcome_list \<union> set t"
proof (cases "sorted_table env k t")
  case (Inl e1)
  with assms show ?thesis by (simp add: criterion_def)
next
  case (Inr t2)
  then have st: "set t2 = set t" by (metis sorted_table_mset mset_eq_setD)
  show ?thesis
    using assms Inr pick_first_set [of t2 outcome_list] pick_loop_set [of t2 outcome_list]
    by (auto simp add: criterion_def Let_def st split: option.splits if_splits prod.splits)
       (metis (no_types, lifting) UnE snd_conv subsetD)
qed

lemma criterion_distinct:
  assumes "criterion env weights num k t outcome_list = (e, t1, outcome_list1)"
    and "distinct (map x0 t)" and "distinct (map x0 outcome_list)"
    and "k = 1 \<longrightarrow> outcome_list = []"
  shows "distinct (map x0 outcome_list1)"
proof (cases "sorted_table env k t")
  case (Inl e1)
  with assms show ?thesis by (simp add: criterion_def)
next
  case (Inr t2)
  then have d2: "distinct (map x0 t2)"
    using assms(2) distinct_x0_mset sorted_table_mset by blast
  show ?thesis
  proof (cases "weights (weight_key k)")
    case None
    with assms Inr show ?thesis by (simp add: criterion_def)
  next
    case (Some w)
    show ?thesis
    proof (cases "k = 1")
      case True
      with assms(4) have "outcome_list = []" by simp
      with assms(1) Inr Some True pick_first_distinct [OF d2] show ?thesis
        by (auto simp add: criterion_def Let_def split: prod.splits) (metis snd_conv)
    next
      case False
      with assms(1,3) Inr Some pick_loop_distinct show ?thesis
        by (auto simp add: criterion_def Let_def)
    qed
  qed
qed

lemma criterion_length:
  assumes "criterion env weights num k t outcome_list = (e, t1, outcome_list1)"
  shows "case weights (weight_key k) of
           None \<Rightarrow> outcome_list1 = outcome_list
         | Some w \<Rightarrow> int (length outcome_list1)
                       \<le> int (length outcome_list) + max 0 (round_quota env w num)"
proof (cases "sorted_table env k t")
  case (Inl e1)
  with assms show ?thesis by (simp add: criterion_def split: option.split)
next
  case (Inr t2)
  show ?thesis
  proof (cases "weights (weight_key k)")
    case None
    with assms Inr show ?thesis by (simp add: criterion_def)
  next
    case (Some w)
    show ?thesis
    proof (cases "k = 1")
      case True
      with assms(1) Inr Some pick_first_length [of t2 outcome_list "round_quota env w num"]
      show ?thesis
        by (auto simp add: criterion_def Let_def split: prod.splits)
    next
      case False
      with assms(1) Inr Some pick_loop_length [of t2 outcome_list "round_quota env w num"]
      show ?thesis
        by (auto simp add: criterion_def Let_def)
    qed
  qed
qed

text \<open>
  The invariant of the criteria: the table stays a permutation of the base table, the
  list has no topic twice and holds lines of the table only.
\<close>

lemma run_criteria_invariant:
  assumes "distinct (map x0 base_table)"
  shows "run_criteria env weights num base_table k = (e, t, outcome_list)
     \<Longrightarrow> mset t = mset base_table \<and> distinct (map x0 outcome_list)
         \<and> set outcome_list \<subseteq> set base_table \<and> (k = 0 \<longrightarrow> outcome_list = [])"
proof (induction k arbitrary: e t outcome_list)
  case 0
  then show ?case by simp
next
  case (Suc k)
  obtain e0 t0 out0 where r: "run_criteria env weights num base_table k = (e0, t0, out0)"
    by (metis prod_cases3)
  note inv = Suc.IH [OF r]
  have i1: "mset t0 = mset base_table" and i2: "distinct (map x0 out0)"
    and i3: "set out0 \<subseteq> set base_table" and i4: "k = 0 \<longrightarrow> out0 = []"
    using inv by blast+
  show ?case
  proof (cases e0)
    case (Some e1)
    from Suc.prems r Some have "t = t0" "outcome_list = out0" by simp_all
    with i1 i2 i3 show ?thesis by simp
  next
    case None
    from Suc.prems r None
    have c: "criterion env weights num (Suc k) t0 out0 = (e, t, outcome_list)" by simp
    have d0: "distinct (map x0 t0)" by (rule distinct_x0_mset [OF i1 assms])
    have g1: "mset t = mset base_table" using criterion_table [OF c] i1 by simp
    have s0: "set t0 = set base_table" using i1 by (rule mset_eq_setD)
    have k1: "Suc k = 1 \<longrightarrow> out0 = []" using i4 by simp
    have g2: "distinct (map x0 outcome_list)" by (rule criterion_distinct [OF c d0 i2 k1])
    have g3: "set outcome_list \<subseteq> set base_table"
      using criterion_set [OF c] i3 s0 by blast
    from g1 g2 g3 show ?thesis by simp
  qed
qed

lemma run_criteria_prefix:
  "prefix (snd (snd (run_criteria env weights num base_table k)))
          (snd (snd (run_criteria env weights num base_table (Suc k))))"
proof -
  obtain e0 t0 out0 where r: "run_criteria env weights num base_table k = (e0, t0, out0)"
    by (metis prod_cases3)
  show ?thesis
  proof (cases e0)
    case (Some e1)
    with r show ?thesis by simp
  next
    case None
    obtain e t out where c: "criterion env weights num (Suc k) t0 out0 = (e, t, out)"
      by (metis prod_cases3)
    with r None criterion_prefix [OF c] show ?thesis by simp
  qed
qed

lemma run_criteria_length:
  "case weights (weight_key (Suc k)) of
     None \<Rightarrow> snd (snd (run_criteria env weights num base_table (Suc k)))
              = snd (snd (run_criteria env weights num base_table k))
   | Some w \<Rightarrow> int (length (snd (snd (run_criteria env weights num base_table (Suc k)))))
                 \<le> int (length (snd (snd (run_criteria env weights num base_table k))))
                    + max 0 (round_quota env w num)"
proof -
  obtain e0 t0 out0 where r: "run_criteria env weights num base_table k = (e0, t0, out0)"
    by (metis prod_cases3)
  show ?thesis
  proof (cases e0)
    case (Some e1)
    with r show ?thesis by (simp split: option.split)
  next
    case None
    obtain e t out where c: "criterion env weights num (Suc k) t0 out0 = (e, t, out)"
      by (metis prod_cases3)
    with r None criterion_length [OF c] show ?thesis by (simp split: option.splits)
  qed
qed

lemma outcome_after_prefix:
  "prefix (outcome_after env p weights raw k) (outcome_after env p weights raw (Suc k))"
  by (simp add: outcome_after_def Let_def run_criteria_prefix del: run_criteria.simps)

lemma outcome_after_contribution:
  "outcome_after env p weights raw (Suc k)
   = outcome_after env p weights raw k @ contribution env p weights raw (Suc k)"
proof -
  from outcome_after_prefix [of env p weights raw k]
  obtain zs where zs: "outcome_after env p weights raw (Suc k)
      = outcome_after env p weights raw k @ zs"
    by (auto simp add: prefix_def)
  then have "contribution env p weights raw (Suc k) = zs"
    by (simp add: contribution_def)
  with zs show ?thesis by simp
qed

lemma outcome_after_0: "outcome_after env p weights raw 0 = []"
  by (simp add: outcome_after_def)

lemma distinct_form_base_table:
  "distinct (map line0 raw) \<Longrightarrow> distinct (map x0 (form_base_table raw))"
proof -
  have "map x0 (form_base_table raw) = map line0 raw"
    by (simp add: form_base_table_def new_line_def)
  then show "distinct (map line0 raw) \<Longrightarrow> distinct (map x0 (form_base_table raw))" by simp
qed

lemma outcome_after_invariant:
  assumes "distinct (map line0 raw)"
  shows "distinct (map x0 (outcome_after env p weights raw k))
         \<and> set (outcome_after env p weights raw k) \<subseteq> set (form_base_table raw)"
proof (cases "p > 0")
  case False
  then show ?thesis by (simp add: outcome_after_def)
next
  case True
  let ?b = "form_base_table raw"
  obtain e t out where
    r: "run_criteria env weights (num_of_searches_of env p ?b) ?b k = (e, t, out)"
    by (metis prod_cases3)
  from run_criteria_invariant [OF distinct_form_base_table [OF assms] r]
  have "distinct (map x0 out)" "set out \<subseteq> set ?b" by blast+
  with True r show ?thesis by (simp add: outcome_after_def)
qed

lemma length_le_of_distinct_subset:
  assumes "distinct (map f xs)" and "set xs \<subseteq> set ys"
  shows "length xs \<le> length ys"
proof -
  have "length xs = card (f ` set xs)"
    using assms(1) by (metis distinct_card length_map set_map)
  also have "\<dots> \<le> card (f ` set ys)"
    using assms(2) by (simp add: card_mono image_mono)
  also have "\<dots> \<le> length ys"
    by (metis card_length length_map set_map)
  finally show ?thesis .
qed

lemma pick_loop_first_not_selected:
  "distinct (map x0 t)
     \<Longrightarrow> pick_loop t outcome_list g = outcome_list @ first_not_selected t outcome_list g"
proof (induction t arbitrary: outcome_list g)
  case Nil
  then show ?case by (simp add: first_not_selected_def)
next
  case (Cons line rest)
  from Cons.prems have d: "distinct (map x0 rest)" and m: "x0 line \<notin> x0 ` set rest" by auto
  from m have n: "\<forall>l\<in>set rest. x0 l \<noteq> x0 line" by (metis imageI)
  show ?case
  proof (cases "x0 line \<notin> set (map x0 outcome_list) \<and> g > 0")
    case True
    have f: "filter (\<lambda>l. x0 l \<notin> set (map x0 (outcome_list @ [line]))) rest
               = filter (\<lambda>l. x0 l \<notin> set (map x0 outcome_list)) rest"
      using n by (intro filter_cong) auto
    have f2: "filter (\<lambda>l. x0 l \<noteq> x0 line \<and> x0 l \<notin> set (map x0 outcome_list)) rest
               = filter (\<lambda>l. x0 l \<notin> set (map x0 outcome_list)) rest"
      using n by (intro filter_cong) auto
    have g: "nat g = Suc (nat (g - 1))" using True by arith
    from True Cons.IH [OF d, of "outcome_list @ [line]" "g - 1"] show ?thesis
      by (simp add: first_not_selected_def f f2 g del: set_map)
  next
    case False
    show ?thesis
    proof (cases "g = 0")
      case True
      with False show ?thesis by (simp add: first_not_selected_def)
    next
      case g0: False
      show ?thesis
      proof (cases "g > 0")
        case True
        with False have "x0 line \<in> set (map x0 outcome_list)" by simp
        with False g0 Cons.IH [OF d, of outcome_list g] show ?thesis
          by (simp add: first_not_selected_def)
      next
        case neg: False
        with False g0 Cons.IH [OF d, of outcome_list g] show ?thesis
          by (simp add: first_not_selected_def)
      qed
    qed
  qed
qed

lemma pick_first_first_not_selected:
  "snd (pick_first t [] g) = first_not_selected t [] g"
  by (simp add: pick_first_def first_not_selected_def)

lemma sorted_table_order:
  "sorted_table env k t = Inr t2 \<Longrightarrow> in_criterion_order k t2"
  by (auto simp add: sorted_table_def in_criterion_order_def py_sort_opt_def py_sort_def
      rev_map split: if_splits)


lemma sorted_table_error: "sorted_table env k t = Inl e \<Longrightarrow> e = TypeError"
  by (auto simp add: sorted_table_def py_sort_opt_def split: if_splits)

lemma criterion_picks:
  assumes c: "criterion env weights num k t out = (e, t1, out1)"
    and d: "distinct (map x0 t)" and k1: "k = 1 \<longrightarrow> out = []"
  shows "(e = None \<or> e = Some IndexError \<longrightarrow>
            in_criterion_order k t1
            \<and> (\<exists>w. weights (weight_key k) = Some w
                  \<and> out1 = out @ first_not_selected t1 out (round_quota env w num)))
       \<and> (e \<noteq> None \<and> e \<noteq> Some IndexError \<longrightarrow> out1 = out)"
proof (cases "sorted_table env k t")
  case (Inl e1)
  with c have "e = Some e1" "out1 = out" by (simp_all add: criterion_def)
  moreover from Inl have "e1 = TypeError" by (rule sorted_table_error)
  ultimately show ?thesis by simp
next
  case (Inr t2)
  show ?thesis
  proof (cases "weights (weight_key k)")
    case None
    with c Inr have "e = Some KeyError" "out1 = out" by (simp_all add: criterion_def)
    then show ?thesis by simp
  next
    case (Some w)
    let ?g = "round_quota env w num"
    have o: "in_criterion_order k t2" by (rule sorted_table_order [OF Inr])
    have d2: "distinct (map x0 t2)"
      by (rule distinct_x0_mset [OF sorted_table_mset [OF Inr] d])
    show ?thesis
    proof (cases "k = 1")
      case True
      with k1 have e: "out = []" by simp
      from c Inr Some True e have t: "t1 = t2" and o1: "out1 = snd (pick_first t2 [] ?g)"
        and ev: "e = fst (pick_first t2 [] ?g)"
        by (auto simp add: criterion_def Let_def split: prod.splits)
      from ev have r: "e = None \<or> e = Some IndexError" by (simp add: pick_first_def)
      from o1 have "out1 = out @ first_not_selected t2 out ?g"
        by (simp add: e pick_first_first_not_selected)
      with o t Some r show ?thesis by auto
    next
      case False
      with c Inr Some have t: "t1 = t2" and o1: "out1 = pick_loop t2 out ?g"
        and r: "e = None"
        by (auto simp add: criterion_def Let_def)
      from o1 have "out1 = out @ first_not_selected t2 out ?g"
        by (simp add: pick_loop_first_not_selected [OF d2])
      with o t Some r show ?thesis by simp
    qed
  qed
qed

lemma run_criteria_picks:
  assumes d: "distinct (map x0 base_table)"
    and r0: "run_criteria env weights num base_table k = (e0, t0, out0)"
    and r1: "run_criteria env weights num base_table (Suc k) = (e1, t1, out1)"
  shows "(e0 = None \<and> (e1 = None \<or> e1 = Some IndexError) \<longrightarrow>
            in_criterion_order (Suc k) t1
            \<and> (\<exists>w. weights (weight_key (Suc k)) = Some w
                  \<and> out1 = out0 @ first_not_selected t1 out0 (round_quota env w num)))
       \<and> (e0 \<noteq> None \<or> (e1 \<noteq> None \<and> e1 \<noteq> Some IndexError) \<longrightarrow> out1 = out0)"
proof (cases e0)
  case (Some e)
  with r0 r1 have "out1 = out0" by simp
  with Some show ?thesis by simp
next
  case None
  with r0 r1 have c: "criterion env weights num (Suc k) t0 out0 = (e1, t1, out1)" by simp
  from run_criteria_invariant [OF d r0]
  have m: "mset t0 = mset base_table" and z: "k = 0 \<longrightarrow> out0 = []" by blast+
  have d0: "distinct (map x0 t0)" by (rule distinct_x0_mset [OF m d])
  from z have k1: "Suc k = 1 \<longrightarrow> out0 = []" by simp
  from criterion_picks [OF c d0 k1] None show ?thesis by blast
qed

lemma contribution_picks:
  assumes d: "distinct (map line0 raw)" and p: "0 < p"
  shows "mset (table_after env p weights raw (Suc k)) = mset (form_base_table raw)
     \<and> (error_after env p weights raw k = None
          \<and> error_after env p weights raw (Suc k) \<in> {None, Some IndexError}
        \<longrightarrow> in_criterion_order (Suc k) (table_after env p weights raw (Suc k))
            \<and> (\<exists>g. group_size env p weights raw (Suc k) = Some g
                  \<and> contribution env p weights raw (Suc k)
                    = first_not_selected (table_after env p weights raw (Suc k))
                        (outcome_after env p weights raw k) g))
     \<and> (error_after env p weights raw k \<noteq> None
          \<or> error_after env p weights raw (Suc k) \<notin> {None, Some IndexError}
        \<longrightarrow> contribution env p weights raw (Suc k) = [])"
proof -
  let ?b = "form_base_table raw"
  let ?n = "num_of_searches_of env p ?b"
  obtain e0 t0 out0 where r0: "run_criteria env weights ?n ?b k = (e0, t0, out0)"
    by (metis prod_cases3)
  obtain e1 t1 out1 where r1: "run_criteria env weights ?n ?b (Suc k) = (e1, t1, out1)"
    by (metis prod_cases3)
  have db: "distinct (map x0 ?b)" by (rule distinct_form_base_table [OF d])
  have ea0: "error_after env p weights raw k = e0"
    using r0 by (simp add: error_after_def del: run_criteria.simps)
  have ea1: "error_after env p weights raw (Suc k) = e1"
    using r1 by (simp add: error_after_def del: run_criteria.simps)
  have ta1: "table_after env p weights raw (Suc k) = t1"
    using r1 by (simp add: table_after_def del: run_criteria.simps)
  have oa0: "outcome_after env p weights raw k = out0"
    using r0 p by (simp add: outcome_after_def del: run_criteria.simps)
  have oa1: "outcome_after env p weights raw (Suc k) = out1"
    using r1 p by (simp add: outcome_after_def del: run_criteria.simps)
  have co: "contribution env p weights raw (Suc k) = drop (length out0) out1"
    by (simp add: contribution_def oa0 oa1 del: run_criteria.simps)
  have gs: "\<And>w. weights (weight_key (Suc k)) = Some w
      \<Longrightarrow> group_size env p weights raw (Suc k) = Some (round_quota env w ?n)"
    by (simp add: group_size_def)
  from run_criteria_invariant [OF db r1] have m: "mset t1 = mset ?b" by blast
  note rp = run_criteria_picks [OF db r0 r1]
  have a: "e0 = None \<and> e1 \<in> {None, Some IndexError}
        \<longrightarrow> in_criterion_order (Suc k) t1
            \<and> (\<exists>g. group_size env p weights raw (Suc k) = Some g
                  \<and> drop (length out0) out1 = first_not_selected t1 out0 g)"
  proof
    assume h: "e0 = None \<and> e1 \<in> {None, Some IndexError}"
    with rp obtain w where o: "in_criterion_order (Suc k) t1"
      and w: "weights (weight_key (Suc k)) = Some w"
      and e: "out1 = out0 @ first_not_selected t1 out0 (round_quota env w ?n)"
      by auto
    from e have "drop (length out0) out1 = first_not_selected t1 out0 (round_quota env w ?n)"
      by simp
    with o gs [OF w] show "in_criterion_order (Suc k) t1
            \<and> (\<exists>g. group_size env p weights raw (Suc k) = Some g
                  \<and> drop (length out0) out1 = first_not_selected t1 out0 g)"
      by blast
  qed
  have b: "e0 \<noteq> None \<or> e1 \<notin> {None, Some IndexError} \<longrightarrow> drop (length out0) out1 = []"
  proof
    assume "e0 \<noteq> None \<or> e1 \<notin> {None, Some IndexError}"
    with rp have "out1 = out0" by auto
    then show "drop (length out0) out1 = []" by simp
  qed
  from m a b show ?thesis unfolding ea0 ea1 ta1 oa0 co by blast
qed

lemma weights_present_key: "weights_present weights \<Longrightarrow> weights (weight_key k) \<noteq> None"
  by (simp add: weights_present_def weight_key_def)

lemma keys_present_table:
  assumes "keys_present raw" and "mset t = mset (form_base_table raw)"
  shows "length t < 2 \<or> (\<forall>x\<in>set t. x1 x \<noteq> None \<and> x3 x \<noteq> None)"
proof -
  from assms(2) have l: "length t = length raw"
    by (metis form_base_table_def length_map mset_eq_length)
  from assms(2) have s: "set t = new_line ` set raw"
    by (metis form_base_table_def mset_eq_setD set_map)
  from assms(1) l s show ?thesis
    by (auto simp add: keys_present_def list_all_iff new_line_def)
qed

lemma sorted_table_keys:
  "sorted_table env k t = Inl e \<Longrightarrow> 2 \<le> length t \<and> (\<exists>x\<in>set t. x1 x = None \<or> x3 x = None)"
  by (auto simp add: sorted_table_def py_sort_opt_def list_ex_iff split: if_splits)

lemma criterion_no_raise:
  assumes c: "criterion env weights num k t out = (e, t1, out1)"
    and w: "weights (weight_key k) \<noteq> None"
    and n: "length t < 2 \<or> (\<forall>x\<in>set t. x1 x \<noteq> None \<and> x3 x \<noteq> None)"
  shows "e = None \<or> (e = Some IndexError \<and> set t1 \<subseteq> set out1)"
proof (cases "sorted_table env k t")
  case (Inl e1)
  from sorted_table_keys [OF Inl] n show ?thesis by auto
next
  case (Inr t2)
  from w obtain v where v: "weights (weight_key k) = Some v" by auto
  show ?thesis
  proof (cases "k = 1")
    case True
    with c Inr v have t: "t1 = t2"
      and o1: "out1 = snd (pick_first t2 out (round_quota env v num))"
      and ev: "e = fst (pick_first t2 out (round_quota env v num))"
      by (auto simp add: criterion_def Let_def split: prod.splits)
    show ?thesis unfolding t o1 ev by (simp add: pick_first_def)
  next
    case False
    with c Inr v have "e = None" by (auto simp add: criterion_def Let_def)
    then show ?thesis by simp
  qed
qed

lemma run_criteria_no_raise:
  assumes d: "distinct (map x0 (form_base_table raw))"
    and w: "weights_present weights" and n: "keys_present raw"
  shows "run_criteria env weights num (form_base_table raw) k = (e, t, out)
     \<Longrightarrow> e = None \<or> (e = Some IndexError \<and> set (form_base_table raw) \<subseteq> set out)"
proof (induction k arbitrary: e t out)
  case 0
  then show ?case by simp
next
  case (Suc k)
  obtain e0 t0 out0 where
    r: "run_criteria env weights num (form_base_table raw) k = (e0, t0, out0)"
    by (metis prod_cases3)
  note ih = Suc.IH [OF r]
  show ?case
  proof (cases e0)
    case (Some e1)
    from Suc.prems r Some have "e = e0" "out = out0" by simp_all
    with ih Some show ?thesis by simp
  next
    case None
    from Suc.prems r None
    have c: "criterion env weights num (Suc k) t0 out0 = (e, t, out)" by simp
    from run_criteria_invariant [OF d r] have m0: "mset t0 = mset (form_base_table raw)" by blast
    from run_criteria_invariant [OF d Suc.prems]
    have m: "mset t = mset (form_base_table raw)" by blast
    then have s: "set t = set (form_base_table raw)" by (rule mset_eq_setD)
    from criterion_no_raise [OF c weights_present_key [OF w] keys_present_table [OF n m0]] s
    show ?thesis by simp
  qed
qed

lemma first_not_selected_all:
  "set t \<subseteq> set selected \<Longrightarrow> first_not_selected t selected g = []"
  by (auto simp add: first_not_selected_def filter_empty_conv)

lemma sorted_table_no_raise:
  "length t < 2 \<or> (\<forall>x\<in>set t. x1 x \<noteq> None \<and> x3 x \<noteq> None)
   \<Longrightarrow> \<exists>t2. sorted_table env k t = Inr t2"
  using sorted_table_keys [of env k t] by (cases "sorted_table env k t") auto

lemma contribution_spec:
  assumes d: "distinct (map line0 raw)" and p: "0 < p"
    and w: "weights_present weights" and n: "keys_present raw"
  shows "\<exists>t g. mset t = mset (form_base_table raw) \<and> in_criterion_order (Suc k) t
           \<and> group_size env p weights raw (Suc k) = Some g
           \<and> contribution env p weights raw (Suc k)
             = first_not_selected t (outcome_after env p weights raw k) g"
proof -
  let ?b = "form_base_table raw"
  let ?n = "num_of_searches_of env p ?b"
  have db: "distinct (map x0 ?b)" by (rule distinct_form_base_table [OF d])
  obtain e0 t0 out0 where r0: "run_criteria env weights ?n ?b k = (e0, t0, out0)"
    by (metis prod_cases3)
  obtain e1 t1 out1 where r1: "run_criteria env weights ?n ?b (Suc k) = (e1, t1, out1)"
    by (metis prod_cases3)
  have ea0: "error_after env p weights raw k = e0"
    using r0 by (simp add: error_after_def del: run_criteria.simps)
  have ea1: "error_after env p weights raw (Suc k) = e1"
    using r1 by (simp add: error_after_def del: run_criteria.simps)
  have oa0: "outcome_after env p weights raw k = out0"
    using r0 p by (simp add: outcome_after_def del: run_criteria.simps)
  note cp = contribution_picks [OF d p, of env weights k]
  note nr0 = run_criteria_no_raise [OF db w n r0]
  note nr1 = run_criteria_no_raise [OF db w n r1]
  show ?thesis
  proof (cases e0)
    case None
    from nr1 have "e1 \<in> {None, Some IndexError}" by auto
    with None cp show ?thesis unfolding ea0 ea1 by blast
  next
    case (Some x)
    with nr0 have all: "set ?b \<subseteq> set out0" by simp
    from Some cp have c: "contribution env p weights raw (Suc k) = []"
      unfolding ea0 by simp
    from weights_present_key [OF w, of "Suc k"]
    obtain g where g: "group_size env p weights raw (Suc k) = Some g"
      by (auto simp add: group_size_def)
    from sorted_table_no_raise [OF keys_present_table [OF n refl], of env "Suc k"]
    obtain t where t: "sorted_table env (Suc k) ?b = Inr t" by blast
    have m: "mset t = mset ?b" by (rule sorted_table_mset [OF t])
    have o: "in_criterion_order (Suc k) t" by (rule sorted_table_order [OF t])
    from m all have "set t \<subseteq> set out0" by (metis mset_eq_setD)
    then have "first_not_selected t out0 g = []" by (rule first_not_selected_all)
    with m o g c show ?thesis unfolding oa0 by auto
  qed
qed

text \<open>
  Claim C5. When the rows of the population carry distinct topics, the list returned by
  \<^verbatim>\<open>get_list_of_searches_for_first_post_and_status_update\<close> has no topic twice and
  is not longer than the population, whatever the percentage, the weights, the rounding
  and the random numbers are; and it is what the five criteria added, in their order.
  What criterion \<open>k\<close> added is tied to its order and its group: when the percentage is
  positive, the table of every criterion is a permutation of the population; a criterion
  that is reached and gets to its loop leaves the table in the order of the criterion
  and adds the first lines of it, as many as its group has, whose topic the criteria
  before it did not select; and a criterion that is not reached after an exception, or
  that raises before its loop, adds nothing. Criterion 1 gets to its loop also when it
  ends with \<^verbatim>\<open>IndexError\<close>, the group being larger than the table: it has added
  the whole table then. When the percentage is not positive the list is empty.
  In terms of what the selection is given: when the five weights are there and every row
  has a start time and a number of searches in its folder, every criterion adds the
  first lines, as many as its group has, not selected before it, of the population in
  some order of the criterion.
\<close>

theorem selection_distinct_and_bounded:
  assumes "distinct (map line0 raw)"
  shows "distinct (map x0 (get_list_of_searches_for_first_post_and_status_update env p weights raw))
     \<and> length (get_list_of_searches_for_first_post_and_status_update env p weights raw) \<le> length raw
     \<and> get_list_of_searches_for_first_post_and_status_update env p weights raw
       = contribution env p weights raw 1 @ contribution env p weights raw 2
         @ contribution env p weights raw 3 @ contribution env p weights raw 4
         @ contribution env p weights raw 5
     \<and> (0 < p \<longrightarrow>
          (\<forall>k\<in>{1..5}.
             mset (table_after env p weights raw k) = mset (form_base_table raw)
             \<and> (error_after env p weights raw (k - 1) = None
                  \<and> error_after env p weights raw k \<in> {None, Some IndexError}
                \<longrightarrow> in_criterion_order k (table_after env p weights raw k)
                    \<and> (\<exists>g. group_size env p weights raw k = Some g
                          \<and> contribution env p weights raw k
                            = first_not_selected (table_after env p weights raw k)
                                (outcome_after env p weights raw (k - 1)) g))
             \<and> (error_after env p weights raw (k - 1) \<noteq> None
                  \<or> error_after env p weights raw k \<notin> {None, Some IndexError}
                \<longrightarrow> contribution env p weights raw k = [])))
     \<and> (0 < p \<and> weights_present weights \<and> keys_present raw \<longrightarrow>
          (\<forall>k\<in>{1..5}.
             \<exists>t g. mset t = mset (form_base_table raw) \<and> in_criterion_order k t
               \<and> group_size env p weights raw k = Some g
               \<and> contribution env p weights raw k
                 = first_not_selected t (outcome_after env p weights raw (k - 1)) g))
     \<and> (p \<le> 0 \<longrightarrow> get_list_of_searches_for_first_post_and_status_update env p weights raw = [])"
proof -
  let ?out = "get_list_of_searches_for_first_post_and_status_update env p weights raw"
  have inv: "distinct (map x0 ?out)" "set ?out \<subseteq> set (form_base_table raw)"
    using outcome_after_invariant [OF assms, of env p weights 5]
    by (simp_all add: get_list_of_searches_for_first_post_and_status_update_def)
  have "length ?out \<le> length (form_base_table raw)"
    using length_le_of_distinct_subset [OF inv] .
  then have len: "length ?out \<le> length raw" by (simp add: form_base_table_def)
  let ?o = "outcome_after env p weights raw"
  let ?c = "contribution env p weights raw"
  have e1: "?o 1 = ?c 1"
    using outcome_after_contribution [of env p weights raw 0] by (simp add: outcome_after_0)
  have e2: "?o 2 = ?o 1 @ ?c 2"
    using outcome_after_contribution [of env p weights raw 1] by (simp add: numeral_2_eq_2)
  have e3: "?o 3 = ?o 2 @ ?c 3"
    using outcome_after_contribution [of env p weights raw 2] by simp
  have e4: "?o 4 = ?o 3 @ ?c 4"
    using outcome_after_contribution [of env p weights raw 3] by simp
  have e5: "?o 5 = ?o 4 @ ?c 5"
    using outcome_after_contribution [of env p weights raw 4] by simp
  have cat: "?out = ?c 1 @ ?c 2 @ ?c 3 @ ?c 4 @ ?c 5"
    unfolding get_list_of_searches_for_first_post_and_status_update_def
    by (simp only: e5 e4 e3 e2 e1 append_assoc)
  have picks: "0 < p \<longrightarrow>
          (\<forall>k\<in>{1..5}.
             mset (table_after env p weights raw k) = mset (form_base_table raw)
             \<and> (error_after env p weights raw (k - 1) = None
                  \<and> error_after env p weights raw k \<in> {None, Some IndexError}
                \<longrightarrow> in_criterion_order k (table_after env p weights raw k)
                    \<and> (\<exists>g. group_size env p weights raw k = Some g
                          \<and> contribution env p weights raw k
                            = first_not_selected (table_after env p weights raw k)
                                (outcome_after env p weights raw (k - 1)) g))
             \<and> (error_after env p weights raw (k - 1) \<noteq> None
                  \<or> error_after env p weights raw k \<notin> {None, Some IndexError}
                \<longrightarrow> contribution env p weights raw k = []))"
  proof (rule impI, rule ballI)
    fix k :: nat
    assume p: "0 < p" and "k \<in> {1..5}"
    then have k: "Suc (k - 1) = k" by simp
    from contribution_picks [OF assms p, of env weights "k - 1"]
    show "mset (table_after env p weights raw k) = mset (form_base_table raw)
             \<and> (error_after env p weights raw (k - 1) = None
                  \<and> error_after env p weights raw k \<in> {None, Some IndexError}
                \<longrightarrow> in_criterion_order k (table_after env p weights raw k)
                    \<and> (\<exists>g. group_size env p weights raw k = Some g
                          \<and> contribution env p weights raw k
                            = first_not_selected (table_after env p weights raw k)
                                (outcome_after env p weights raw (k - 1)) g))
             \<and> (error_after env p weights raw (k - 1) \<noteq> None
                  \<or> error_after env p weights raw k \<notin> {None, Some IndexError}
                \<longrightarrow> contribution env p weights raw k = [])"
      unfolding k .
  qed
  have none: "p \<le> 0 \<longrightarrow> ?out = []"
    by (simp add: get_list_of_searches_for_first_post_and_status_update_def outcome_after_def)
  have spec: "0 < p \<and> weights_present weights \<and> keys_present raw \<longrightarrow>
          (\<forall>k\<in>{1..5}.
             \<exists>t g. mset t = mset (form_base_table raw) \<and> in_criterion_order k t
               \<and> group_size env p weights raw k = Some g
               \<and> contribution env p weights raw k
                 = first_not_selected t (outcome_after env p weights raw (k - 1)) g)"
  proof (rule impI, rule ballI)
    fix k :: nat
    assume h: "0 < p \<and> weights_present weights \<and> keys_present raw" and "k \<in> {1..5}"
    then have k: "Suc (k - 1) = k" by simp
    from h have p: "0 < p" and w: "weights_present weights" and n: "keys_present raw"
      by simp_all
    from contribution_spec [OF assms p w n, where env = env and k = "k - 1"]
    show "\<exists>t g. mset t = mset (form_base_table raw) \<and> in_criterion_order k t
               \<and> group_size env p weights raw k = Some g
               \<and> contribution env p weights raw k
                 = first_not_selected t (outcome_after env p weights raw (k - 1)) g"
      unfolding k .
  qed
  from inv(1) len cat picks spec none show ?thesis by blast
qed


lemma contribution_bound:
  "case group_size env p weights raw (Suc k) of
     None \<Rightarrow> contribution env p weights raw (Suc k) = []
   | Some g \<Rightarrow> int (length (contribution env p weights raw (Suc k))) \<le> max 0 g"
proof (cases "p > 0")
  case False
  then show ?thesis
    by (simp add: contribution_def outcome_after_def split: option.split)
next
  case True
  let ?b = "form_base_table raw"
  let ?n = "num_of_searches_of env p ?b"
  let ?o = "\<lambda>k. snd (snd (run_criteria env weights ?n ?b k))"
  have o: "outcome_after env p weights raw j = ?o j" for j
    using True by (simp add: outcome_after_def Let_def del: run_criteria.simps)
  have len: "length (contribution env p weights raw (Suc k)) = length (?o (Suc k)) - length (?o k)"
    by (simp add: contribution_def o del: run_criteria.simps)
  have pre: "length (?o k) \<le> length (?o (Suc k))"
    using run_criteria_prefix [of env weights ?n ?b k] by (rule prefix_length_le)
  show ?thesis
  proof (cases "weights (weight_key (Suc k))")
    case None
    with run_criteria_length [where weights = weights and k = k and env = env and num = "?n" and base_table = "?b"]
    have "?o (Suc k) = ?o k" by (simp del: run_criteria.simps)
    with None show ?thesis
      by (simp add: group_size_def contribution_def o del: run_criteria.simps)
  next
    case (Some w)
    with run_criteria_length [where weights = weights and k = k and env = env and num = "?n" and base_table = "?b"]
    have "int (length (?o (Suc k))) \<le> int (length (?o k)) + max 0 (round_quota env w ?n)"
      by (simp del: run_criteria.simps)
    with Some len pre show ?thesis
      by (simp add: group_size_def del: run_criteria.simps)
  qed
qed

text \<open>
  Claim C6. Each of the five criteria adds at most
  \<^verbatim>\<open>round(weights[criterion] / 100 * num_of_searches)\<close> lines, the size of its
  group as the source computes it. (A group size below 0, which only a negative weight
  or percentage gives, adds nothing; a missing weight ends the selection and adds
  nothing.)
\<close>

theorem criterion_contribution_bounded:
  "\<forall>k\<in>{1..5}. case group_size env p weights raw k of
       None \<Rightarrow> contribution env p weights raw k = []
     | Some g \<Rightarrow> int (length (contribution env p weights raw k)) \<le> max 0 g"
proof
  fix k :: nat
  assume "k \<in> {1..5}"
  then obtain j where k: "k = Suc j" by (cases k) auto
  show "case group_size env p weights raw k of
       None \<Rightarrow> contribution env p weights raw k = []
     | Some g \<Rightarrow> int (length (contribution env p weights raw k)) \<le> max 0 g"
    unfolding k by (rule contribution_bound)
qed

lemma group_size_main:
  "k \<in> {1..5} \<Longrightarrow> group_size (env_with h) 20 main_weights (population 100) k = Some 4"
  by (auto simp add: group_size_def main_weights_def weight_key_def env_with_def
      num_of_searches_of_def form_base_table_def population_def round_half_even_def)

theorem criterion_contribution_bounded_witness:
  "group_size (env_with (\<lambda>n t. Inl Timeout)) 20 main_weights (population 100) 1 = Some 4
   \<and> int (length (contribution (env_with (\<lambda>n t. Inl Timeout)) 20 main_weights (population 100) 1)) \<le> 4
   \<and> group_size (env_with (\<lambda>n t. Inl Timeout)) 20 main_weights (population 100) 5 = Some 4
   \<and> int (length (contribution (env_with (\<lambda>n t. Inl Timeout)) 20 main_weights (population 100) 5)) \<le> 4"
proof -
  let ?e = "env_with (\<lambda>n t. Inl Timeout)"
  have g1: "group_size ?e 20 main_weights (population 100) 1 = Some 4"
    by (rule group_size_main) simp
  have g5: "group_size ?e 20 main_weights (population 100) 5 = Some 4"
    by (rule group_size_main) simp
  have m1: "(1::nat) \<in> {1..5}" and m5: "(5::nat) \<in> {1..5}" by simp_all
  from criterion_contribution_bounded [of ?e 20 main_weights "population 100", THEN bspec, OF m1]
    criterion_contribution_bounded [of ?e 20 main_weights "population 100", THEN bspec, OF m5] g1 g5
  show ?thesis by simp
qed

theorem selection_distinct_and_bounded_witness:
  "distinct (map line0 small_population)
   \<and> map x0 (get_list_of_searches_for_first_post_and_status_update
        (env_with (\<lambda>n t. Inl Timeout)) 100 main_weights small_population) = [6, 2, 4, 5, 3]
   \<and> length (get_list_of_searches_for_first_post_and_status_update
        (env_with (\<lambda>n t. Inl Timeout)) 100 main_weights small_population)
       \<le> length small_population
   \<and> error_after (env_with (\<lambda>n t. Inl Timeout)) 100 main_weights small_population 2 = None
   \<and> error_after (env_with (\<lambda>n t. Inl Timeout)) 100 main_weights small_population 3 = None
   \<and> group_size (env_with (\<lambda>n t. Inl Timeout)) 100 main_weights small_population 3 = Some 1
   \<and> map x3 (table_after (env_with (\<lambda>n t. Inl Timeout)) 100 main_weights small_population 3)
       = [Some 9, Some 7, Some 5, Some 3, Some 2, Some 1]
   \<and> map x0 (table_after (env_with (\<lambda>n t. Inl Timeout)) 100 main_weights small_population 3)
       = [2, 4, 5, 1, 6, 3]
   \<and> map x0 (outcome_after (env_with (\<lambda>n t. Inl Timeout)) 100 main_weights small_population 2)
       = [6, 2]
   \<and> in_criterion_order 3
        (table_after (env_with (\<lambda>n t. Inl Timeout)) 100 main_weights small_population 3)
   \<and> contribution (env_with (\<lambda>n t. Inl Timeout)) 100 main_weights small_population 3
       = first_not_selected
           (table_after (env_with (\<lambda>n t. Inl Timeout)) 100 main_weights small_population 3)
           (outcome_after (env_with (\<lambda>n t. Inl Timeout)) 100 main_weights small_population 2) 1
   \<and> map x0 (contribution (env_with (\<lambda>n t. Inl Timeout)) 100 main_weights small_population 3)
       = [4]
   \<and> weights_present main_weights
   \<and> keys_present small_population
   \<and> (\<exists>t g. mset t = mset (form_base_table small_population) \<and> in_criterion_order 5 t
         \<and> group_size (env_with (\<lambda>n t. Inl Timeout)) 100 main_weights small_population 5 = Some g
         \<and> contribution (env_with (\<lambda>n t. Inl Timeout)) 100 main_weights small_population 5
           = first_not_selected t
               (outcome_after (env_with (\<lambda>n t. Inl Timeout)) 100 main_weights small_population 4) g)
   \<and> error_after (env_with (\<lambda>n t. Inl Timeout)) 100 Map.empty small_population 1 = Some KeyError
   \<and> contribution (env_with (\<lambda>n t. Inl Timeout)) 100 Map.empty small_population 1 = []
   \<and> get_list_of_searches_for_first_post_and_status_update
        (env_with (\<lambda>n t. Inl Timeout)) 0 main_weights small_population = []"
proof -
  let ?e = "env_with (\<lambda>n t. Inl Timeout)"
  have d: "distinct (map line0 small_population)" by code_simp
  have p: "(0::int) < 100" by simp
  have m3: "(3::nat) \<in> {1..5}" and m1: "(1::nat) \<in> {1..5}" and m5: "(5::nat) \<in> {1..5}"
    by simp_all
  note main = selection_distinct_and_bounded [OF d, of ?e 100 main_weights]
  note keyless = selection_distinct_and_bounded [OF d, of ?e 100 Map.empty]
  note zero = selection_distinct_and_bounded [OF d, of ?e 0 main_weights]
  have ids: "map x0 (get_list_of_searches_for_first_post_and_status_update
        ?e 100 main_weights small_population) = [6, 2, 4, 5, 3]" by code_simp
  have len: "length (get_list_of_searches_for_first_post_and_status_update
        ?e 100 main_weights small_population) \<le> length small_population"
    using main by blast
  have e2: "error_after ?e 100 main_weights small_population 2 = None" by code_simp
  have e3: "error_after ?e 100 main_weights small_population 3 = None" by code_simp
  have g3: "group_size ?e 100 main_weights small_population 3 = Some 1" by code_simp
  have t3: "map x3 (table_after ?e 100 main_weights small_population 3)
       = [Some 9, Some 7, Some 5, Some 3, Some 2, Some 1]" by code_simp
  have i3: "map x0 (table_after ?e 100 main_weights small_population 3) = [2, 4, 5, 1, 6, 3]"
    by code_simp
  have o2: "map x0 (outcome_after ?e 100 main_weights small_population 2) = [6, 2]"
    by code_simp
  have c3: "map x0 (contribution ?e 100 main_weights small_population 3) = [4]" by code_simp
  have two: "(3::nat) - 1 = 2" by simp
  note picks = main [THEN conjunct2, THEN conjunct2, THEN conjunct2, THEN conjunct1,
      THEN mp, OF p, THEN bspec, OF m3, unfolded two]
  from picks e2 e3
  have ord: "in_criterion_order 3 (table_after ?e 100 main_weights small_population 3)"
    and "\<exists>g. group_size ?e 100 main_weights small_population 3 = Some g
            \<and> contribution ?e 100 main_weights small_population 3
              = first_not_selected (table_after ?e 100 main_weights small_population 3)
                  (outcome_after ?e 100 main_weights small_population 2) g"
    by simp_all
  with g3
  have pick: "contribution ?e 100 main_weights small_population 3
              = first_not_selected (table_after ?e 100 main_weights small_population 3)
                  (outcome_after ?e 100 main_weights small_population 2) 1"
    by simp
  have wp: "weights_present main_weights" by code_simp
  have kp: "keys_present small_population" by code_simp
  have four: "(5::nat) - 1 = 4" by simp
  from p wp kp have h: "(0::int) < 100 \<and> weights_present main_weights
      \<and> keys_present small_population" by simp
  note sp = main [THEN conjunct2, THEN conjunct2, THEN conjunct2, THEN conjunct2, THEN conjunct1,
      THEN mp, OF h, THEN bspec, OF m5, unfolded four]
  have k1: "error_after ?e 100 Map.empty small_population 1 = Some KeyError" by code_simp
  have one: "(1::nat) - 1 = 0" by simp
  note nopicks = keyless [THEN conjunct2, THEN conjunct2, THEN conjunct2, THEN conjunct1,
      THEN mp, OF p, THEN bspec, OF m1, unfolded one]
  from nopicks k1
  have none: "contribution ?e 100 Map.empty small_population 1 = []" by simp
  have z: "get_list_of_searches_for_first_post_and_status_update
        ?e 0 main_weights small_population = []"
    by (rule zero [THEN conjunct2, THEN conjunct2, THEN conjunct2, THEN conjunct2,
          THEN conjunct2, THEN mp]) simp
  from d ids len e2 e3 g3 t3 i3 o2 ord pick c3 wp kp sp k1 none z show ?thesis by blast
qed


lemma run_criteria_set:
  "run_criteria env weights num base_table k = (e, t, outcome_list)
     \<Longrightarrow> mset t = mset base_table \<and> set outcome_list \<subseteq> set base_table"
proof (induction k arbitrary: e t outcome_list)
  case 0
  then show ?case by simp
next
  case (Suc k)
  obtain e0 t0 out0 where r: "run_criteria env weights num base_table k = (e0, t0, out0)"
    by (metis prod_cases3)
  have i1: "mset t0 = mset base_table" and i3: "set out0 \<subseteq> set base_table"
    using Suc.IH [OF r] by blast+
  show ?case
  proof (cases e0)
    case (Some e1)
    from Suc.prems r Some have "t = t0" "outcome_list = out0" by simp_all
    with i1 i3 show ?thesis by simp
  next
    case None
    from Suc.prems r None
    have c: "criterion env weights num (Suc k) t0 out0 = (e, t, outcome_list)" by simp
    have g1: "mset t = mset base_table" using criterion_table [OF c] i1 by simp
    have s0: "set t0 = set base_table" using i1 by (rule mset_eq_setD)
    have g3: "set outcome_list \<subseteq> set base_table"
      using criterion_set [OF c] i3 s0 by blast
    from g1 g3 show ?thesis by simp
  qed
qed

lemma selection_lines_from_table:
  "set (get_list_of_searches_for_first_post_and_status_update env p weights raw)
     \<subseteq> new_line ` set raw"
proof (cases "p > 0")
  case False
  then show ?thesis
    by (simp add: get_list_of_searches_for_first_post_and_status_update_def outcome_after_def)
next
  case True
  let ?b = "form_base_table raw"
  obtain e t out where
    r: "run_criteria env weights (num_of_searches_of env p ?b) ?b 5 = (e, t, out)"
    by (metis prod_cases3)
  from run_criteria_set [OF r] have "set out \<subseteq> set ?b" by blast
  moreover have "set ?b = new_line ` set raw" by (simp add: form_base_table_def)
  ultimately show ?thesis using True r
    by (simp add: get_list_of_searches_for_first_post_and_status_update_def outcome_after_def
        del: run_criteria.simps)
qed

text \<open>
  Claim C3, as amended. When the table is formed, before any sorting, a line with a blank
  last-update time gets the oldest date, which no time is below; a line whose number of
  checks made is missing (or 0) gets 1 for the number of checks. The number of searches
  in the folder is copied as it is, missing or not, and so are the topic and the start
  time. Every line of the selection is such a line.
\<close>

theorem new_line_substitutions:
  "(line3 line = None \<longrightarrow> x2 (new_line line) = oldest_date)
   \<and> (\<forall>t. line3 line = Some t \<longrightarrow> x2 (new_line line) = t)
   \<and> (\<forall>t. oldest_date \<le> t)
   \<and> (line4 line = None \<or> line4 line = Some 0 \<longrightarrow> x4 (new_line line) = 1)
   \<and> (\<forall>n. line4 line = Some n \<and> n \<noteq> 0 \<longrightarrow> x4 (new_line line) = n)
   \<and> x3 (new_line line) = line5 line
   \<and> x0 (new_line line) = line0 line \<and> x1 (new_line line) = line1 line
   \<and> set (get_list_of_searches_for_first_post_and_status_update env p weights raw)
        \<subseteq> new_line ` set raw"
  using selection_lines_from_table [of env p weights raw]
  by (auto simp add: new_line_def oldest_date_def or_one_def)

theorem new_line_substitutions_witness:
  "line3 \<lparr>line0 = 7, line1 = Some 5, line2 = Some 1, line3 = None, line4 = None, line5 = None\<rparr> = None
   \<and> x2 (new_line \<lparr>line0 = 7, line1 = Some 5, line2 = Some 1, line3 = None, line4 = None, line5 = None\<rparr>) = oldest_date
   \<and> x4 (new_line \<lparr>line0 = 7, line1 = Some 5, line2 = Some 1, line3 = None, line4 = None, line5 = None\<rparr>) = 1
   \<and> x3 (new_line \<lparr>line0 = 7, line1 = Some 5, line2 = Some 1, line3 = None, line4 = None, line5 = None\<rparr>) = None"
  using new_line_substitutions [of "\<lparr>line0 = 7, line1 = Some 5, line2 = Some 1, line3 = None, line4 = None, line5 = None\<rparr>"]
  by simp

text \<open>
  Claim C3 as stated fails: a missing number of searches in the folder stays missing.
\<close>

theorem missing_folder_count_stays_missing:
  "line5 \<lparr>line0 = 7, line1 = Some 5, line2 = Some 1, line3 = Some 9, line4 = Some 2, line5 = None\<rparr> = None
   \<and> x3 (new_line \<lparr>line0 = 7, line1 = Some 5, line2 = Some 1, line3 = Some 9, line4 = Some 2, line5 = None\<rparr>) \<noteq> Some 1"
  by (simp add: new_line_def)


subsection \<open>Fetching\<close>




text \<open>
  Claim C10. When the fetch gives no content, \<^verbatim>\<open>parse_first_post\<close> returns no
  hash, no content and both flags false, and the loop of
  \<^verbatim>\<open>update_first_posts_and_statuses\<close> takes the branch that compares hashes, with
  the missing hash.
\<close>

theorem parse_first_post_without_content:
  assumes "fst (parse_search env a st) = Inr None"
  shows "parse_first_post env a st
           = (Inr (None, None, False, False), snd (parse_search env a st))
     \<and> check_one_first_post env a (st, updated)
         = (Inr (), check_latest_hash env a None None (snd (parse_search env a st), updated))"
  using assms
  by (cases "parse_search env a st") (simp add: parse_first_post_def check_one_first_post_def)

theorem parse_first_post_without_content_witness:
  "fst (parse_search (env_with (\<lambda>n t. Inl ReadTimeout)) 7 initial_state) = Inr None
   \<and> fst (parse_first_post (env_with (\<lambda>n t. Inl ReadTimeout)) 7 initial_state)
       = Inr (None, None, False, False)
   \<and> fst (check_one_first_post (env_with (\<lambda>n t. Inl ReadTimeout)) 7 (initial_state, []))
       = Inr ()"
  using parse_first_post_without_content
    [of "env_with (\<lambda>n t. Inl ReadTimeout)" 7 initial_state "[]"]
  by (simp add: env_with_def parse_search_def initial_state_def)

subsection \<open>Snapshots of the first post\<close>

lemma find_current_none:
  "find (is_current_of a) tbl = None \<Longrightarrow> a \<notin> set (map fp_search_id (filter fp_actual tbl))"
  by (auto simp add: find_None_iff is_current_of_def)

lemma filter_current_single:
  "at_most_one_current tbl \<Longrightarrow> find (is_current_of a) tbl = Some r
     \<Longrightarrow> filter (is_current_of a) tbl = [r]"
proof (induction tbl)
  case Nil
  then show ?case by simp
next
  case (Cons x tbl)
  show ?case
  proof (cases "is_current_of a x")
    case True
    with Cons.prems(2) have xr: "x = r" by simp
    from True Cons.prems(1) have "a \<notin> fp_search_id ` set (filter fp_actual tbl)"
      by (auto simp add: at_most_one_current_def is_current_of_def)
    then have "filter (is_current_of a) tbl = []"
      by (auto simp add: filter_empty_conv is_current_of_def)
    with True xr show ?thesis by simp
  next
    case False
    with Cons.prems have "at_most_one_current tbl" "find (is_current_of a) tbl = Some r"
      by (auto simp add: at_most_one_current_def split: if_splits)
    with Cons.IH False show ?thesis by simp
  qed
qed

lemma retire_keeps_others:
  "map fp_search_id (filter fp_actual
      (map (\<lambda>r. if fp_search_id r = a then r\<lparr>fp_actual := False\<rparr> else r) tbl))
   = filter (\<lambda>i. i \<noteq> a) (map fp_search_id (filter fp_actual tbl))"
  by (induction tbl) auto

lemma count_keeps_current:
  "map fp_search_id (filter fp_actual
      (map (\<lambda>r. if is_current_of a r then r\<lparr>fp_num_of_checks := v\<rparr> else r) tbl))
   = map fp_search_id (filter fp_actual tbl)"
  by (induction tbl) (auto simp add: is_current_of_def)

lemma check_latest_hash_invariant:
  assumes "at_most_one_current (search_first_posts st)"
  shows "at_most_one_current
           (search_first_posts (fst (check_latest_hash env a act_hash act_content (st, updated))))"
proof (cases "find (is_current_of a) (search_first_posts st)")
  case None
  from find_current_none [OF None] assms None show ?thesis
    by (simp add: check_latest_hash_def at_most_one_current_def new_record_def)
next
  case (Some r)
  show ?thesis
  proof (cases "act_hash \<noteq> fp_content_hash r")
    case True
    with Some assms show ?thesis
      by (simp add: check_latest_hash_def at_most_one_current_def new_record_def Let_def
          retire_keeps_others distinct_map_filter)
  next
    case False
    with Some assms show ?thesis
      by (simp add: check_latest_hash_def at_most_one_current_def Let_def count_keeps_current)
  qed
qed



lemma retire_leaves_none:
  "filter (is_current_of a)
     (map (\<lambda>r. if fp_search_id r = a then r\<lparr>fp_actual := False\<rparr> else r) tbl) = []"
  by (induction tbl) (auto simp add: is_current_of_def)

lemma count_on_current:
  "filter (is_current_of a)
     (map (\<lambda>r. if is_current_of a r then r\<lparr>fp_num_of_checks := v\<rparr> else r) tbl)
   = map (\<lambda>r. r\<lparr>fp_num_of_checks := v\<rparr>) (filter (is_current_of a) tbl)"
  by (induction tbl) (auto simp add: is_current_of_def)

lemma count_off_current:
  "filter (\<lambda>r. \<not> is_current_of a r)
     (map (\<lambda>r. if is_current_of a r then r\<lparr>fp_num_of_checks := v\<rparr> else r) tbl)
   = filter (\<lambda>r. \<not> is_current_of a r) tbl"
  by (induction tbl) (auto simp add: is_current_of_def)

lemma find_none_filter:
  "find (is_current_of a) tbl = None \<Longrightarrow> filter (is_current_of a) tbl = []"
  by (auto simp add: find_None_iff filter_empty_conv)

lemma new_record_current: "is_current_of a (new_record env a h c st)"
  by (simp add: is_current_of_def new_record_def)

text \<open>
  Nothing but the compared block writes the table of the snapshots, so the whole of
  \<^verbatim>\<open>update_first_posts_and_statuses\<close> keeps the invariant.
\<close>

lemma parse_search_table:
  "search_first_posts (snd (parse_search env a st)) = search_first_posts st"
  by (simp add: parse_search_def Let_def count_bad_gateway_def notify_admin_def
      publish_to_pubsub_def split: sum.split)

lemma check_content_table:
  "search_first_posts (snd (check_content a c st)) = search_first_posts st"
  by (simp add: check_content_def Let_def notify_admin_def publish_to_pubsub_def py_index_def)

lemma check_topic_visibility_table:
  "search_first_posts (snd (check_topic_visibility env a st)) = search_first_posts st"
proof (cases "parse_search env a st")
  case (Pair r st1)
  with parse_search_table [of env a st] have t: "search_first_posts st1 = search_first_posts st"
    by simp
  show ?thesis
  proof (cases r)
    case (Inl e)
    with Pair t show ?thesis by (simp add: check_topic_visibility_def)
  next
    case (Inr c)
    with Pair t check_content_table show ?thesis
      by (cases c) (simp_all add: check_topic_visibility_def)
  qed
qed

lemma update_one_topic_visibility_table:
  "search_first_posts (snd (update_one_topic_visibility env a st)) = search_first_posts st"
proof (cases "check_topic_visibility env a st")
  case (Pair r st1)
  with check_topic_visibility_table [of env a st]
  have t: "search_first_posts st1 = search_first_posts st" by simp
  show ?thesis
  proof (cases r)
    case (Inl e)
    with Pair t show ?thesis by (simp add: update_one_topic_visibility_def)
  next
    case (Inr v)
    with Pair t show ?thesis
      by (cases v) (simp add: update_one_topic_visibility_def count_bad_gateway_def)
  qed
qed

lemma get_status_table:
  "search_first_posts (get_status_from_content_and_send_to_topic_management a c st)
     = search_first_posts st"
  by (simp add: get_status_from_content_and_send_to_topic_management_def publish_to_pubsub_def
      split: option.split)

lemma parse_first_post_table:
  "search_first_posts (snd (parse_first_post env a st)) = search_first_posts st"
proof (cases "parse_search env a st")
  case (Pair r st1)
  with parse_search_table [of env a st] have t: "search_first_posts st1 = search_first_posts st"
    by simp
  show ?thesis
  proof (cases r)
    case (Inl e)
    with Pair t show ?thesis by (simp add: parse_first_post_def)
  next
    case (Inr c)
    with Pair t get_status_table show ?thesis
      by (cases c) (simp_all add: parse_first_post_def Let_def)
  qed
qed

lemma check_one_first_post_invariant:
  assumes "at_most_one_current (search_first_posts st)"
  shows "at_most_one_current
           (search_first_posts (fst (snd (check_one_first_post env a (st, updated)))))"
proof (cases "parse_first_post env a st")
  case (Pair r st1)
  with parse_first_post_table [of env a st] assms
  have i1: "at_most_one_current (search_first_posts st1)" by simp
  show ?thesis
  proof (cases r)
    case (Inl e)
    with Pair i1 show ?thesis by (simp add: check_one_first_post_def)
  next
    case (Inr v)
    obtain h c bg nf where v: "v = (h, c, bg, nf)" by (metis prod_cases4)
    have i2: "at_most_one_current
        (search_first_posts (snd (update_one_topic_visibility env a st1)))"
      using i1 by (simp add: update_one_topic_visibility_table)
    show ?thesis
      using Pair Inr v i1 i2 check_latest_hash_invariant [OF i1, of env a h c updated]
      by (cases "update_one_topic_visibility env a st1"; cases "check_latest_hash env a h c (st1, updated)")
         (auto simp add: check_one_first_post_def count_bad_gateway_def split: sum.splits)
  qed
qed

lemma first_posts_loop_invariant:
  "at_most_one_current (search_first_posts (fst sl))
     \<Longrightarrow> at_most_one_current (search_first_posts (fst (first_posts_loop env ids sl)))"
proof (induction ids arbitrary: sl)
  case Nil
  then show ?case by simp
next
  case (Cons a ids)
  obtain st updated where sl: "sl = (st, updated)" by (cases sl)
  obtain r sl1 where c: "check_one_first_post env a (st, updated) = (r, sl1)"
    by (cases "check_one_first_post env a (st, updated)")
  from check_one_first_post_invariant [of st env a updated] Cons.prems sl c
  have i: "at_most_one_current (search_first_posts (fst sl1))" by simp
  show ?case
    using sl c i Cons.IH [OF i] by (cases r) simp_all
qed

lemma update_first_posts_and_statuses_invariant:
  assumes "at_most_one_current (search_first_posts st)"
  shows "at_most_one_current
           (search_first_posts (update_first_posts_and_statuses env p weights raw st))"
proof -
  let ?ids = "map x0 (get_list_of_searches_for_first_post_and_status_update env p weights raw)"
  obtain st1 updated where l: "first_posts_loop env ?ids (st, []) = (st1, updated)"
    by (cases "first_posts_loop env ?ids (st, [])")
  from first_posts_loop_invariant [of "(st, [])" env ?ids] assms l
  have "at_most_one_current (search_first_posts st1)" by simp
  with l show ?thesis
    by (simp add: update_first_posts_and_statuses_def Let_def publish_to_pubsub_def)
qed


text \<open>
  Claim C7. If no topic has two current snapshots before, none has after
  \<^verbatim>\<open>update_first_posts_and_statuses\<close>, nor after the block of it that compares the
  fingerprint with the current snapshot, whichever branch that takes. When the fingerprint differs from the one of the
  current snapshot, every snapshot of the topic is made non-current and one new snapshot,
  current and with check counter 1, is appended: it is then the only current one of the
  topic. When the fingerprint is the same, the current snapshot of the topic gets its
  counter raised by one (a counter that was missing or 0 counting as 1) and nothing else
  changes. When the topic has no current snapshot, one snapshot, current and with
  counter 1, is appended.
\<close>

theorem first_post_update_one_current:
  assumes "at_most_one_current (search_first_posts st)"
  shows "at_most_one_current
           (search_first_posts (update_first_posts_and_statuses env p weights raw st))
     \<and> at_most_one_current
           (search_first_posts (fst (check_latest_hash env a act_hash act_content (st, updated))))
     \<and> fp_num_of_checks (new_record env a act_hash act_content st) = Some 1
     \<and> (case find (is_current_of a) (search_first_posts st) of
          None \<Rightarrow>
            search_first_posts (fst (check_latest_hash env a act_hash act_content (st, updated)))
              = search_first_posts st @ [new_record env a act_hash act_content st]
            \<and> filter (is_current_of a)
                 (search_first_posts (fst (check_latest_hash env a act_hash act_content (st, updated))))
              = [new_record env a act_hash act_content st]
        | Some r \<Rightarrow>
            if act_hash \<noteq> fp_content_hash r then
              search_first_posts (fst (check_latest_hash env a act_hash act_content (st, updated)))
                = map (\<lambda>r. if fp_search_id r = a then r\<lparr>fp_actual := False\<rparr> else r)
                    (search_first_posts st)
                  @ [new_record env a act_hash act_content st]
              \<and> filter (is_current_of a)
                   (search_first_posts (fst (check_latest_hash env a act_hash act_content (st, updated))))
                = [new_record env a act_hash act_content st]
            else
              filter (is_current_of a)
                (search_first_posts (fst (check_latest_hash env a act_hash act_content (st, updated))))
                = [r\<lparr>fp_num_of_checks := Some (or_one (fp_num_of_checks r) + 1)\<rparr>]
              \<and> filter (\<lambda>r. \<not> is_current_of a r)
                   (search_first_posts (fst (check_latest_hash env a act_hash act_content (st, updated))))
                = filter (\<lambda>r. \<not> is_current_of a r) (search_first_posts st)
              \<and> length (search_first_posts
                           (fst (check_latest_hash env a act_hash act_content (st, updated))))
                = length (search_first_posts st))"
proof -
  let ?tbl = "search_first_posts st"
  let ?new = "new_record env a act_hash act_content st"
  have inv: "at_most_one_current
           (search_first_posts (fst (check_latest_hash env a act_hash act_content (st, updated))))"
    by (rule check_latest_hash_invariant [OF assms])
  have one: "fp_num_of_checks ?new = Some 1" by (simp add: new_record_def)
  have branches: "case find (is_current_of a) ?tbl of
          None \<Rightarrow>
            search_first_posts (fst (check_latest_hash env a act_hash act_content (st, updated)))
              = ?tbl @ [?new]
            \<and> filter (is_current_of a)
                 (search_first_posts (fst (check_latest_hash env a act_hash act_content (st, updated))))
              = [?new]
        | Some r \<Rightarrow>
            if act_hash \<noteq> fp_content_hash r then
              search_first_posts (fst (check_latest_hash env a act_hash act_content (st, updated)))
                = map (\<lambda>r. if fp_search_id r = a then r\<lparr>fp_actual := False\<rparr> else r) ?tbl
                  @ [?new]
              \<and> filter (is_current_of a)
                   (search_first_posts (fst (check_latest_hash env a act_hash act_content (st, updated))))
                = [?new]
            else
              filter (is_current_of a)
                (search_first_posts (fst (check_latest_hash env a act_hash act_content (st, updated))))
                = [r\<lparr>fp_num_of_checks := Some (or_one (fp_num_of_checks r) + 1)\<rparr>]
              \<and> filter (\<lambda>r. \<not> is_current_of a r)
                   (search_first_posts (fst (check_latest_hash env a act_hash act_content (st, updated))))
                = filter (\<lambda>r. \<not> is_current_of a r) ?tbl
              \<and> length (search_first_posts
                           (fst (check_latest_hash env a act_hash act_content (st, updated))))
                = length ?tbl"
  proof (cases "find (is_current_of a) ?tbl")
    case None
    with find_none_filter [OF None] new_record_current [of a env act_hash act_content st]
    show ?thesis by (simp add: check_latest_hash_def)
  next
    case (Some r)
    show ?thesis
    proof (cases "act_hash \<noteq> fp_content_hash r")
      case True
      with Some new_record_current [of a env act_hash act_content st] show ?thesis
        by (simp add: check_latest_hash_def Let_def retire_leaves_none)
    next
      case False
      with Some filter_current_single [OF assms Some] show ?thesis
        by (simp add: check_latest_hash_def Let_def count_on_current count_off_current)
    qed
  qed
  have whole: "at_most_one_current
           (search_first_posts (update_first_posts_and_statuses env p weights raw st))"
    by (rule update_first_posts_and_statuses_invariant [OF assms])
  from whole inv one branches show ?thesis by blast
qed

theorem first_post_update_one_current_witness:
  "at_most_one_current (search_first_posts state_with_snapshot)
   \<and> at_most_one_current (search_first_posts (fst (check_latest_hash
         (env_with (\<lambda>n t. Inl Timeout)) 7 (Some (u ''new'')) (Some (u ''<p>new</p>''))
         (state_with_snapshot, []))))
   \<and> find (is_current_of 7) (search_first_posts state_with_snapshot) = Some old_snapshot
   \<and> search_first_posts (fst (check_latest_hash
         (env_with (\<lambda>n t. Inl Timeout)) 7 (Some (u ''new'')) (Some (u ''<p>new</p>''))
         (state_with_snapshot, [])))
      = [old_snapshot\<lparr>fp_actual := False\<rparr>,
         \<lparr>fp_search_id = 7, fp_timestamp = 1000, fp_actual = True,
          fp_content_hash = Some (u ''new''), fp_content = Some (u ''<p>new</p>''),
          fp_num_of_checks = Some 1\<rparr>]"
proof -
  have a: "at_most_one_current (search_first_posts state_with_snapshot)"
    by (simp add: state_with_snapshot_def at_most_one_current_def)
  have f: "find (is_current_of 7) (search_first_posts state_with_snapshot) = Some old_snapshot"
    by (simp add: state_with_snapshot_def is_current_of_def old_snapshot_def)
  have h: "Some (u ''new'') \<noteq> fp_content_hash old_snapshot"
    by (simp add: old_snapshot_def u_def)
  let ?r = "fst (check_latest_hash
         (env_with (\<lambda>n t. Inl Timeout)) 7 (Some (u ''new'')) (Some (u ''<p>new</p>''))
         (state_with_snapshot, []))"
  note c7 = first_post_update_one_current [OF a, of "env_with (\<lambda>n t. Inl Timeout)" 20
      main_weights "[]" 7 "Some (u ''new'')" "Some (u ''<p>new</p>'')" "[]"]
  from c7 have inv: "at_most_one_current (search_first_posts ?r)" by blast
  from c7 f h have "search_first_posts ?r
      = map (\<lambda>r. if fp_search_id r = 7 then r\<lparr>fp_actual := False\<rparr> else r)
          (search_first_posts state_with_snapshot)
        @ [new_record (env_with (\<lambda>n t. Inl Timeout)) 7 (Some (u ''new''))
             (Some (u ''<p>new</p>'')) state_with_snapshot]"
    by simp
  also have "\<dots> = [old_snapshot\<lparr>fp_actual := False\<rparr>,
         \<lparr>fp_search_id = 7, fp_timestamp = 1000, fp_actual = True,
          fp_content_hash = Some (u ''new''), fp_content = Some (u ''<p>new</p>''),
          fp_num_of_checks = Some 1\<rparr>]"
    by (simp add: state_with_snapshot_def new_record_def env_with_def initial_state_def
        old_snapshot_def)
  finally have eq: "search_first_posts ?r = [old_snapshot\<lparr>fp_actual := False\<rparr>,
         \<lparr>fp_search_id = 7, fp_timestamp = 1000, fp_actual = True,
          fp_content_hash = Some (u ''new''), fp_content = Some (u ''<p>new</p>''),
          fp_num_of_checks = Some 1\<rparr>]" .
  from a inv f eq show ?thesis by blast
qed



subsection \<open>Status from the title\<close>

lemma title_of_page_propal: "title_of_content (topic_page title_propal) = Some title_propal"
  by code_simp
lemma title_of_page_nzh: "title_of_content (topic_page title_nzh) = Some title_nzh"
  by code_simp
lemma title_of_page_naiden_zhiv: "title_of_content (topic_page title_naiden_zhiv) = Some title_naiden_zhiv"
  by code_simp
lemma title_of_page_plain: "title_of_content (topic_page title_plain) = Some title_plain"
  by code_simp
lemma status_of_propal: "status_of_title (Some title_propal) = Some Ishchem"
  by code_simp
lemma status_of_nzh: "status_of_title (Some title_nzh) = None"
  by code_simp
lemma status_of_naiden_zhiv: "status_of_title (Some title_naiden_zhiv) = Some NZh"
  by code_simp
lemma status_of_plain: "status_of_title (Some title_plain) = None"
  by code_simp

lemma published_for_propal: "published (get_status_from_content_and_send_to_topic_management 7
     (topic_page title_propal) initial_state) = []"
  by (simp add: get_status_from_content_and_send_to_topic_management_def title_of_page_propal status_of_propal initial_state_def)

lemma published_for_nzh: "published (get_status_from_content_and_send_to_topic_management 7
     (topic_page title_nzh) initial_state) = []"
  by (simp add: get_status_from_content_and_send_to_topic_management_def title_of_page_nzh status_of_nzh initial_state_def)

lemma published_for_naiden_zhiv: "published (get_status_from_content_and_send_to_topic_management 7
     (topic_page title_naiden_zhiv) initial_state) = [TopicManagement 7 NZh]"
  by (simp add: get_status_from_content_and_send_to_topic_management_def title_of_page_naiden_zhiv status_of_naiden_zhiv initial_state_def
      publish_to_pubsub_def)

lemma published_for_plain: "published (get_status_from_content_and_send_to_topic_management 7
     (topic_page title_plain) initial_state) = []"
  by (simp add: get_status_from_content_and_send_to_topic_management_def title_of_page_plain status_of_plain initial_state_def)

text \<open>
  Claim C2, as amended. A page whose title is "Ivanov Ivan, 45, propal" gives the status
  "searching" and publishes nothing. A page whose title is "Ivanov Ivan, 45 NZh" gives no
  status and publishes nothing: the patterns look for the word "zhiv" (alive), and the
  abbreviation is not one of them. A page whose title is "Naiden, zhiv Ivanov Ivan, 45"
  gives the status "found alive" and publishes it for topic management. A title with no
  keyword gives no status and publishes nothing.
\<close>

theorem status_of_the_named_titles:
  "status_of_title (title_of_content (topic_page title_propal)) = Some Ishchem
   \<and> published (get_status_from_content_and_send_to_topic_management 7
        (topic_page title_propal) initial_state) = []
   \<and> status_of_title (title_of_content (topic_page title_nzh)) = None
   \<and> published (get_status_from_content_and_send_to_topic_management 7
        (topic_page title_nzh) initial_state) = []
   \<and> status_of_title (title_of_content (topic_page title_naiden_zhiv)) = Some NZh
   \<and> published (get_status_from_content_and_send_to_topic_management 7
        (topic_page title_naiden_zhiv) initial_state) = [TopicManagement 7 NZh]
   \<and> status_of_title (title_of_content (topic_page title_plain)) = None
   \<and> published (get_status_from_content_and_send_to_topic_management 7
        (topic_page title_plain) initial_state) = []"
  by (simp add: title_of_page_propal title_of_page_nzh title_of_page_naiden_zhiv title_of_page_plain status_of_propal status_of_nzh status_of_naiden_zhiv status_of_plain published_for_propal published_for_nzh published_for_naiden_zhiv published_for_plain)

text \<open>
  Claim C2 as stated fails on its second title: the title that ends with the
  abbreviation is not classified as found alive, and nothing is published for it.
\<close>

theorem abbreviation_is_not_found_alive:
  "status_of_title (title_of_content (topic_page title_nzh)) \<noteq> Some NZh
   \<and> published (get_status_from_content_and_send_to_topic_management 7
        (topic_page title_nzh) initial_state) = []"
  by (simp add: title_of_page_nzh status_of_nzh published_for_nzh)



subsection \<open>Visibility\<close>

lemma find_after_padding:
  "sub \<noteq> [] \<Longrightarrow> hd sub \<noteq> x
     \<Longrightarrow> find_index_of sub (replicate n x @ s) = map_option (\<lambda>i. n + i) (find_index_of sub s)"
proof (induction n)
  case 0
  show ?case by (simp add: option.map_ident)
next
  case (Suc n)
  from Suc.prems have "\<not> prefix sub (x # replicate n x @ s)"
    by (cases sub) auto
  with Suc show ?case by (simp add: option.map_comp comp_def)
qed

lemma py_find_after_padding:
  assumes "sub \<noteq> []" and "hd sub \<noteq> x"
  shows "py_find (replicate n x @ s) sub
           = (if py_find s sub < 0 then - 1 else int n + py_find s sub)"
  by (simp add: py_find_def find_after_padding [OF assms] split: option.split)

lemma find_old_marker: "py_find bad_gateway_page (u ''Bad Gateway'') = 23"
  by code_simp

lemma find_deleted_dot: "py_find bad_gateway_page deleted_marker_dot = - 1"
  by code_simp

lemma find_hidden: "py_find bad_gateway_page hidden_marker = - 1"
  by code_simp

lemma bad_gateway_page_length: "length bad_gateway_page = 136"
  by code_simp

lemma bad_gateway_page_hd: "bad_gateway_page ! 0 = 60"
  by code_simp

lemma check_content_short:
  "check_content 7 bad_gateway_page st = (Inl IndexError, st)"
proof -
  have i: "py_index bad_gateway_page 3000 = Inl IndexError"
    by (simp add: py_index_def bad_gateway_page_length)
  show ?thesis
    by (simp add: check_content_def Let_def find_empty_is_zero find_old_marker i)
qed

lemma check_content_long:
  "check_content 7 long_bad_gateway_page st
     = (Inr (Some False, Some False, False, Regular), notify_admin (AdminBadGateway 7 60) st)"
proof -
  have na: "u ''Bad Gateway'' \<noteq> []" "hd (u ''Bad Gateway'') \<noteq> 32"
    by (simp_all add: u_def)
  have nb: "deleted_marker_dot \<noteq> []" "hd deleted_marker_dot \<noteq> 32"
    by (simp_all add: deleted_marker_dot_def)
  have nc: "hidden_marker \<noteq> []" "hd hidden_marker \<noteq> 32"
    by (simp_all add: hidden_marker_def)
  have a: "py_find long_bad_gateway_page (u ''Bad Gateway'') = 3023"
    using py_find_after_padding [OF na, of 3000 bad_gateway_page] find_old_marker
    by (simp add: long_bad_gateway_page_def)
  have b: "py_find long_bad_gateway_page deleted_marker_dot = - 1"
    using py_find_after_padding [OF nb, of 3000 bad_gateway_page] find_deleted_dot
    by (simp add: long_bad_gateway_page_def)
  have c: "py_find long_bad_gateway_page hidden_marker = - 1"
    using py_find_after_padding [OF nc, of 3000 bad_gateway_page] find_hidden
    by (simp add: long_bad_gateway_page_def)
  have d: "py_index long_bad_gateway_page 3000 = Inr 60"
    by (simp add: py_index_def long_bad_gateway_page_def nth_append bad_gateway_page_length
        bad_gateway_page_hd)
  show ?thesis
    by (simp add: check_content_def Let_def find_empty_is_zero a b c d)
qed

lemma now_env_with: "now (env_with h) n = 1000 + n"
  by (simp add: env_with_def)

lemma http_env_with: "http (env_with h) = h"
  by (simp add: env_with_def)

text \<open>For every page and every state, the flag of the bad gateway stays false.\<close>

lemma check_topic_visibility_never_bad_gateway:
  "fst (check_topic_visibility env a st) \<noteq> Inr (d, h, True, v)"
  by (auto simp add: check_topic_visibility_def check_content_def Let_def find_empty_is_zero
      split: prod.splits sum.splits option.splits)

text \<open>
  Claim C1 fails on the code. \<^verbatim>\<open>check_topic_visibility\<close> never reports a bad
  gateway, since its marker is the empty string, found at index 0. On the error page of
  a gateway it raises \<^verbatim>\<open>IndexError\<close> (the page is shorter than 3001 characters),
  so \<^verbatim>\<open>update_one_topic_visibility\<close> writes nothing and counts nothing. On a page
  that carries the same error after 3000 spaces it reports a regular topic, and
  \<^verbatim>\<open>update_one_topic_visibility\<close> writes that to the table and counts nothing.
\<close>

theorem gateway_page_not_recognised:
  "fst (update_one_topic_visibility (env_with (\<lambda>n t. Inr bad_gateway_page)) 7 initial_state)
     = Inl IndexError
   \<and> bad_gateway_counter
       (snd (update_one_topic_visibility (env_with (\<lambda>n t. Inr bad_gateway_page)) 7 initial_state))
     = 0
   \<and> fst (check_topic_visibility (env_with (\<lambda>n t. Inr long_bad_gateway_page)) 7 initial_state)
     = Inr (Some False, Some False, False, Regular)
   \<and> search_health_check
       (snd (update_one_topic_visibility (env_with (\<lambda>n t. Inr long_bad_gateway_page)) 7
               initial_state))
     = [\<lparr>hc_search_forum_num = 7, hc_timestamp = 1000, hc_status = Regular\<rparr>]
   \<and> bad_gateway_counter
       (snd (update_one_topic_visibility (env_with (\<lambda>n t. Inr long_bad_gateway_page)) 7
               initial_state))
     = 0"
proof -
  have s: "bad_gateway_page \<noteq> []" using bad_gateway_page_length by auto
  have l: "long_bad_gateway_page \<noteq> []" by (simp add: long_bad_gateway_page_def)
  have short: "check_topic_visibility (env_with (\<lambda>n t. Inr bad_gateway_page)) 7 initial_state
      = (Inl IndexError, initial_state\<lparr>requests_made := Suc (requests_made initial_state)\<rparr>)"
    by (simp add: check_topic_visibility_def parse_search_def http_env_with s check_content_short)
  have long: "check_topic_visibility (env_with (\<lambda>n t. Inr long_bad_gateway_page)) 7 initial_state
      = (Inr (Some False, Some False, False, Regular),
         notify_admin (AdminBadGateway 7 60)
           (initial_state\<lparr>requests_made := Suc (requests_made initial_state)\<rparr>))"
    by (simp add: check_topic_visibility_def parse_search_def http_env_with l check_content_long)
  have c1: "fst (update_one_topic_visibility (env_with (\<lambda>n t. Inr bad_gateway_page)) 7 initial_state)
     = Inl IndexError"
    by (simp add: update_one_topic_visibility_def short)
  have c2: "bad_gateway_counter
       (snd (update_one_topic_visibility (env_with (\<lambda>n t. Inr bad_gateway_page)) 7 initial_state))
     = 0"
    by (simp add: update_one_topic_visibility_def short) (simp add: initial_state_def)
  have c3: "fst (check_topic_visibility (env_with (\<lambda>n t. Inr long_bad_gateway_page)) 7 initial_state)
     = Inr (Some False, Some False, False, Regular)"
    by (simp add: long)
  have c4: "search_health_check
       (snd (update_one_topic_visibility (env_with (\<lambda>n t. Inr long_bad_gateway_page)) 7
               initial_state))
     = [\<lparr>hc_search_forum_num = 7, hc_timestamp = 1000, hc_status = Regular\<rparr>]"
    by (simp add: update_one_topic_visibility_def long now_env_with notify_admin_def
        publish_to_pubsub_def) (simp add: initial_state_def)
  have c5: "bad_gateway_counter
       (snd (update_one_topic_visibility (env_with (\<lambda>n t. Inr long_bad_gateway_page)) 7
               initial_state))
     = 0"
    by (simp add: update_one_topic_visibility_def long notify_admin_def publish_to_pubsub_def)
       (simp add: initial_state_def)
  from c1 c2 c3 c4 c5 show ?thesis by blast
qed



subsection \<open>The budget of transient failures\<close>

lemma find_gateway_marker: "py_find bad_gateway_page (u ''502 Bad Gateway'') = 19"
  by code_simp

lemma find_deleted_marker: "py_find bad_gateway_page deleted_marker = - 1"
  by code_simp

lemma parse_first_post_gateway_page:
  "parse_first_post (env_with (\<lambda>n t. Inr bad_gateway_page)) a st
     = (Inr (None, Some bad_gateway_page, True, False),
        st\<lparr>requests_made := Suc (requests_made st)\<rparr>)"
proof -
  have s: "bad_gateway_page \<noteq> []" using bad_gateway_page_length by auto
  show ?thesis
    by (simp add: parse_first_post_def parse_search_def http_env_with s find_gateway_marker find_deleted_marker)
qed

lemma check_one_first_post_gateway_page:
  "check_one_first_post (env_with (\<lambda>n t. Inr bad_gateway_page)) a (st, updated)
     = (Inr (), count_bad_gateway (st\<lparr>requests_made := Suc (requests_made st)\<rparr>), updated)"
  by (simp add: check_one_first_post_def parse_first_post_gateway_page)

text \<open>
  Claim C4 fails on the code for the loop of \<^verbatim>\<open>update_first_posts_and_statuses\<close>:
  it counts the gateway errors and never reads the counter. When every request is
  answered by the gateway error page, every topic of the list is fetched and counted,
  however long the list is and whatever the counter was at the start.
\<close>

theorem first_posts_loop_ignores_the_budget:
  "requests_made (fst (first_posts_loop (env_with (\<lambda>n t. Inr bad_gateway_page)) ids (st, updated)))
     = requests_made st + length ids
   \<and> bad_gateway_counter
       (fst (first_posts_loop (env_with (\<lambda>n t. Inr bad_gateway_page)) ids (st, updated)))
     = bad_gateway_counter st + int (length ids)"
proof (induction ids arbitrary: st)
  case Nil
  show ?case by simp
next
  case (Cons a ids)
  show ?case
    using Cons.IH [of "count_bad_gateway (st\<lparr>requests_made := Suc (requests_made st)\<rparr>)"]
    by (simp add: check_one_first_post_gateway_page count_bad_gateway_def)
qed

text \<open>The loop of the visibility update does stop: the sibling that the claim describes.\<close>

lemma visibility_loop_stops_over_budget:
  "update_one_topic_visibility env a st = (Inr x, st1) \<Longrightarrow> bad_gateway_counter st1 > 3
     \<Longrightarrow> visibility_loop env (a # rest) st = st1"
  by simp


subsection \<open>The fingerprint\<close>

lemma normalized_views_page_5: "normalized_first_post (views_page (u ''5''))
    = u ''<p>(1 MB), (2 MB)'' @ ending_ov @ u ''</p>''"
  by code_simp
lemma normalized_views_page_6: "normalized_first_post (views_page (u ''6'')) = u ''<p>(1 MB), (2 MB)</p>''"
  by code_simp
lemma normalized_bare_page_9: "normalized_first_post (bare_page (u ''9'')) = u ''defghij</p>''"
  by code_simp
lemma normalized_bare_page_10: "normalized_first_post (bare_page (u ''10'')) = u ''cdefghij</p>''"
  by code_simp
lemma views_texts_differ: "u ''<p>(1 MB), (2 MB)'' @ ending_ov @ u ''</p>'' \<noteq> u ''<p>(1 MB), (2 MB)</p>''"
  by code_simp
lemma bare_texts_differ: "u ''defghij</p>'' \<noteq> u ''cdefghij</p>''"
  by code_simp

lemma parse_views_page_5: "fst (parse_first_post (env_with (\<lambda>n t. Inr (views_page (u ''5'')))) 7 initial_state)
   = Inr (Some (u ''<p>(1 MB), (2 MB)'' @ ending_ov @ u ''</p>''),
          Some (u ''<p>(1 MB), (2 MB)'' @ ending_ov @ u ''</p>''), False, False)"
  by code_simp
lemma parse_views_page_6: "fst (parse_first_post (env_with (\<lambda>n t. Inr (views_page (u ''6'')))) 7 initial_state)
   = Inr (Some (u ''<p>(1 MB), (2 MB)</p>''), Some (u ''<p>(1 MB), (2 MB)</p>''), False, False)"
  by code_simp
lemma parse_bare_page_9: "fst (parse_first_post (env_with (\<lambda>n t. Inr (bare_page (u ''9'')))) 7 initial_state)
   = Inr (Some (u ''defghij</p>''), Some (u ''defghij</p>''), False, False)"
  by code_simp
lemma parse_bare_page_10: "fst (parse_first_post (env_with (\<lambda>n t. Inr (bare_page (u ''10'')))) 7 initial_state)
   = Inr (Some (u ''cdefghij</p>''), Some (u ''cdefghij</p>''), False, False)"
  by code_simp


text \<open>
  Claim C9 fails on the code. Two topic pages with both markers that differ only in the
  number of a view counter ("5 prosmotr" against "6 prosmotr", beside an unchanged
  "5 prosmotrov") get different texts to hash: the word found first, ") 5 prosmotr", is
  replaced wherever it occurs, also inside the second counter, whose ending is then
  left behind. Two pages without the start marker that differ only in the number of the
  view counter they start with ("9" against "10") get different texts too: the cut is
  made 20 characters from the start whatever stands there. The fingerprint of the
  concrete environment is the text itself.
\<close>

theorem fingerprint_changes_with_view_count:
  "fst (parse_first_post (env_with (\<lambda>n t. Inr (views_page (u ''5'')))) 7 initial_state)
     = Inr (Some (u ''<p>(1 MB), (2 MB)'' @ ending_ov @ u ''</p>''),
            Some (u ''<p>(1 MB), (2 MB)'' @ ending_ov @ u ''</p>''), False, False)
   \<and> fst (parse_first_post (env_with (\<lambda>n t. Inr (views_page (u ''6'')))) 7 initial_state)
     = Inr (Some (u ''<p>(1 MB), (2 MB)</p>''), Some (u ''<p>(1 MB), (2 MB)</p>''), False, False)
   \<and> u ''<p>(1 MB), (2 MB)'' @ ending_ov @ u ''</p>'' \<noteq> u ''<p>(1 MB), (2 MB)</p>''
   \<and> fst (parse_first_post (env_with (\<lambda>n t. Inr (bare_page (u ''9'')))) 7 initial_state)
     = Inr (Some (u ''defghij</p>''), Some (u ''defghij</p>''), False, False)
   \<and> fst (parse_first_post (env_with (\<lambda>n t. Inr (bare_page (u ''10'')))) 7 initial_state)
     = Inr (Some (u ''cdefghij</p>''), Some (u ''cdefghij</p>''), False, False)
   \<and> u ''defghij</p>'' \<noteq> u ''cdefghij</p>''"
  using parse_views_page_5 parse_views_page_6 views_texts_differ parse_bare_page_9
    parse_bare_page_10 bare_texts_differ
  by blast


end
